theory Spec2Isabelle
  imports Complex_Main "HOL-Library.Word"
begin

unbundle bit_operations_syntax

section \<open>JavaScript numbers\<close>

text \<open>
  The colour module \<^verbatim>\<open>webcolor.js\<close> computes with JavaScript numbers. A number is
  modelled as \<open>NaN\<close>, one of the two infinities, or a finite value \<open>Num x\<close> with \<open>x\<close> an
  exact real. The not-a-number and division-by-zero behaviour of the language is kept.
  Sums, products and quotients of finite values are exact: the rounding of IEEE doubles
  is not part of this type, nor is the sign of zero (a zero divisor counts as \<open>+0\<close>)
  or the underflow of tiny values. Powers and the two number parsers, whose results
  leave the range of the doubles on short inputs, overflow to an infinity. Rounding is
  modelled apart, in the section on doubles below, for the one computation where a
  property of this file depends on it.
\<close>

datatype jsnum = NaN | NegInf | Num real | PosInf

text \<open>
  A result whose magnitude is \<open>2\<^sup>1\<^sup>0\<^sup>2\<^sup>4 - 2\<^sup>9\<^sup>7\<^sup>0\<close> or more, half a unit in the last place
  above the largest double, is rounded to an infinity.
\<close>

definition double_limit :: real where
  "double_limit = 2 ^ 1024 - 2 ^ 970"

definition js_overflow :: "real \<Rightarrow> jsnum" where
  "js_overflow v =
     (if double_limit \<le> v then PosInf else if v \<le> - double_limit then NegInf else Num v)"

fun sgn_of :: "jsnum \<Rightarrow> real" where
  "sgn_of NaN = 0"
| "sgn_of NegInf = - 1"
| "sgn_of PosInf = 1"
| "sgn_of (Num x) = sgn x"

definition inf_of_sign :: "real \<Rightarrow> jsnum" where
  "inf_of_sign s = (if s = 0 then NaN else if 0 < s then PosInf else NegInf)"

fun js_neg :: "jsnum \<Rightarrow> jsnum" where
  "js_neg NaN = NaN"
| "js_neg NegInf = PosInf"
| "js_neg PosInf = NegInf"
| "js_neg (Num x) = Num (- x)"

text \<open>\<^verbatim>\<open>x + y\<close>\<close>

fun js_add :: "jsnum \<Rightarrow> jsnum \<Rightarrow> jsnum" where
  "js_add (Num x) (Num y) = Num (x + y)"
| "js_add NaN _ = NaN"
| "js_add _ NaN = NaN"
| "js_add PosInf NegInf = NaN"
| "js_add NegInf PosInf = NaN"
| "js_add PosInf _ = PosInf"
| "js_add _ PosInf = PosInf"
| "js_add NegInf _ = NegInf"
| "js_add _ NegInf = NegInf"

text \<open>\<^verbatim>\<open>x - y\<close>\<close>

definition js_sub :: "jsnum \<Rightarrow> jsnum \<Rightarrow> jsnum" where
  "js_sub x y = js_add x (js_neg y)"

text \<open>\<^verbatim>\<open>x * y\<close>: an infinity times zero is \<open>NaN\<close>.\<close>

fun js_mul :: "jsnum \<Rightarrow> jsnum \<Rightarrow> jsnum" where
  "js_mul (Num x) (Num y) = Num (x * y)"
| "js_mul NaN _ = NaN"
| "js_mul _ NaN = NaN"
| "js_mul x y = inf_of_sign (sgn_of x * sgn_of y)"

text \<open>
  \<^verbatim>\<open>x / y\<close>: a finite non-zero value divided by zero is an infinity, \<^verbatim>\<open>0 / 0\<close> and
  the quotient of two infinities are \<open>NaN\<close>, a finite value divided by an infinity is zero.
\<close>

fun js_div :: "jsnum \<Rightarrow> jsnum \<Rightarrow> jsnum" where
  "js_div (Num x) (Num y) = (if y = 0 then inf_of_sign (sgn x) else Num (x / y))"
| "js_div NaN _ = NaN"
| "js_div _ NaN = NaN"
| "js_div (Num x) _ = Num 0"
| "js_div x (Num y) = inf_of_sign (sgn_of x * (if y < 0 then - 1 else 1))"
| "js_div _ _ = NaN"

text \<open>The comparisons \<^verbatim>\<open><\<close>, \<^verbatim>\<open><=\<close>, \<^verbatim>\<open>>\<close>, \<^verbatim>\<open>>=\<close>: every comparison with \<open>NaN\<close> is false.\<close>

fun js_lt :: "jsnum \<Rightarrow> jsnum \<Rightarrow> bool" where
  "js_lt (Num x) (Num y) = (x < y)"
| "js_lt NaN _ = False"
| "js_lt _ NaN = False"
| "js_lt PosInf _ = False"
| "js_lt _ NegInf = False"
| "js_lt _ PosInf = True"
| "js_lt NegInf _ = True"

definition js_le :: "jsnum \<Rightarrow> jsnum \<Rightarrow> bool" where
  "js_le x y = (x \<noteq> NaN \<and> y \<noteq> NaN \<and> \<not> js_lt y x)"

definition js_gt :: "jsnum \<Rightarrow> jsnum \<Rightarrow> bool" where
  "js_gt x y = js_lt y x"

definition js_ge :: "jsnum \<Rightarrow> jsnum \<Rightarrow> bool" where
  "js_ge x y = js_le y x"

text \<open>\<^verbatim>\<open>x === y\<close> on numbers: \<open>NaN\<close> differs from everything, itself included.\<close>

definition js_eq :: "jsnum \<Rightarrow> jsnum \<Rightarrow> bool" where
  "js_eq x y = (x \<noteq> NaN \<and> x = y)"

text \<open>\<^verbatim>\<open>Math.max\<close> and \<^verbatim>\<open>Math.min\<close> of two numbers: \<open>NaN\<close> if either is.\<close>

definition js_max :: "jsnum \<Rightarrow> jsnum \<Rightarrow> jsnum" where
  "js_max x y = (if x = NaN \<or> y = NaN then NaN else if js_lt x y then y else x)"

definition js_min :: "jsnum \<Rightarrow> jsnum \<Rightarrow> jsnum" where
  "js_min x y = (if x = NaN \<or> y = NaN then NaN else if js_lt y x then y else x)"

text \<open>\<^verbatim>\<open>Math.round\<close>: the nearest integer, a half rounds towards plus infinity.\<close>

fun js_round :: "jsnum \<Rightarrow> jsnum" where
  "js_round (Num x) = Num (of_int \<lfloor>x + 1 / 2\<rfloor>)"
| "js_round x = x"

text \<open>
  \<^verbatim>\<open>base ** y\<close> and \<^verbatim>\<open>Math.pow(base, y)\<close> for a finite exponent \<open>y\<close> (the module
  only uses the constants \<open>2\<close>, \<open>0.5\<close> and \<open>2.4\<close>): a negative base with a
  non-integer exponent gives \<open>NaN\<close>, and a power beyond the doubles is an infinity.
\<close>

definition js_pow :: "jsnum \<Rightarrow> real \<Rightarrow> jsnum" where
  "js_pow base y =
     (if y = 0 then Num 1
      else case base of
        NaN \<Rightarrow> NaN
      | PosInf \<Rightarrow> (if 0 < y then PosInf else Num 0)
      | NegInf \<Rightarrow>
          (if 0 < y then (if of_int \<lfloor>y\<rfloor> = y \<and> odd \<lfloor>y\<rfloor> then NegInf else PosInf)
           else Num 0)
      | Num x \<Rightarrow>
          (if 0 < x then js_overflow (x powr y)
           else if x = 0 then (if 0 < y then Num 0 else PosInf)
           else if of_int \<lfloor>y\<rfloor> = y
             then js_overflow ((if even \<lfloor>y\<rfloor> then 1 else - 1) * (\<bar>x\<bar> powr y))
             else NaN))"

text \<open>\<^verbatim>\<open>ToInt32\<close>, applied by \<^verbatim>\<open>>>\<close> and \<^verbatim>\<open>&\<close> to their operands.\<close>

fun toInt32 :: "jsnum \<Rightarrow> 32 word" where
  "toInt32 (Num x) = word_of_int (if x < 0 then - \<lfloor>- x\<rfloor> else \<lfloor>x\<rfloor>)"
| "toInt32 _ = 0"

text \<open>\<^verbatim>\<open>x >> k\<close> (sign-propagating) and \<^verbatim>\<open>x & y\<close>; the result is a number again.\<close>

definition js_shr :: "jsnum \<Rightarrow> nat \<Rightarrow> jsnum" where
  "js_shr x k = Num (of_int (sint (signed_drop_bit k (toInt32 x))))"

definition js_band :: "jsnum \<Rightarrow> jsnum \<Rightarrow> jsnum" where
  "js_band x y = Num (of_int (sint (toInt32 x AND toInt32 y)))"

section \<open>JavaScript strings\<close>

text \<open>
  Strings are byte strings: the model covers ASCII input. \<^verbatim>\<open>trim\<close> strips the ASCII
  white space and line terminators, \<^verbatim>\<open>toLowerCase\<close> maps \<open>A\<close>..\<open>Z\<close> to \<open>a\<close>..\<open>z\<close>.
\<close>

definition is_ws :: "char \<Rightarrow> bool" where
  "is_ws c = (c \<in> set [CHR 0x09, CHR 0x0A, CHR 0x0B, CHR 0x0C, CHR 0x0D, CHR 0x20])"

definition trim :: "string \<Rightarrow> string" where
  "trim s = rev (dropWhile is_ws (rev (dropWhile is_ws s)))"

definition lower_char :: "char \<Rightarrow> char" where
  "lower_char c =
     (case map_of (zip ''ABCDEFGHIJKLMNOPQRSTUVWXYZ'' ''abcdefghijklmnopqrstuvwxyz'') c of
        Some d \<Rightarrow> d
      | None \<Rightarrow> c)"

definition toLowerCase :: "string \<Rightarrow> string" where
  "toLowerCase s = map lower_char s"

text \<open>\<^verbatim>\<open>s[i]\<close>: \<open>None\<close> is \<^verbatim>\<open>undefined\<close>.\<close>

definition js_char_at :: "string \<Rightarrow> nat \<Rightarrow> char option" where
  "js_char_at s i = (if i < length s then Some (s ! i) else None)"

text \<open>\<^verbatim>\<open>s.slice(start, end)\<close>; \<open>None\<close> for an omitted \<^verbatim>\<open>end\<close>.\<close>

definition slice_index :: "nat \<Rightarrow> int \<Rightarrow> nat" where
  "slice_index len i = (if i < 0 then nat (max (int len + i) 0) else min (nat i) len)"

definition js_slice :: "string \<Rightarrow> int \<Rightarrow> int option \<Rightarrow> string" where
  "js_slice s start end =
     (let len = length s;
          from = slice_index len start;
          to = (case end of None \<Rightarrow> len | Some e \<Rightarrow> slice_index len e)
      in take (to - from) (drop from s))"

text \<open>\<^verbatim>\<open>s.split(',')\<close>: always at least one component.\<close>

fun js_split :: "char \<Rightarrow> string \<Rightarrow> string list" where
  "js_split c [] = [[]]"
| "js_split c (x # xs) =
     (if x = c then [] # js_split c xs
      else (case js_split c xs of
              w # ws \<Rightarrow> (x # w) # ws
            | [] \<Rightarrow> [[x]]))"

subsection \<open>\<^verbatim>\<open>parseInt\<close> and \<^verbatim>\<open>parseFloat\<close>\<close>

fun index_of :: "'a \<Rightarrow> 'a list \<Rightarrow> nat option" where
  "index_of x [] = None"
| "index_of x (y # ys) =
     (if x = y then Some 0 else map_option Suc (index_of x ys))"

definition digit_value :: "char \<Rightarrow> nat option" where
  "digit_value c = index_of (lower_char c) ''0123456789abcdefghijklmnopqrstuvwxyz''"

definition is_digit_in :: "nat \<Rightarrow> char \<Rightarrow> bool" where
  "is_digit_in R c = (case digit_value c of Some d \<Rightarrow> d < R | None \<Rightarrow> False)"

definition digits_value :: "nat \<Rightarrow> string \<Rightarrow> nat" where
  "digits_value R z =
     foldl (\<lambda>acc c. acc * R + (case digit_value c of Some d \<Rightarrow> d | None \<Rightarrow> 0)) 0 z"

text \<open>
  \<^verbatim>\<open>parseInt(s, radix)\<close>; radix \<open>0\<close> stands for an omitted radix. Leading white space
  is skipped, a sign is read, the prefix \<^verbatim>\<open>0x\<close> selects radix 16 when the radix is
  omitted or 16, and the longest prefix of digits of the radix is the value; no digit
  at all gives \<open>NaN\<close>, and a value beyond the doubles is an infinity.
\<close>

definition js_parseInt :: "string \<Rightarrow> nat \<Rightarrow> jsnum" where
  "js_parseInt s radix =
     (let t = dropWhile is_ws s;
          neg = (take 1 t = ''-'');
          u = (if take 1 t = ''+'' \<or> take 1 t = ''-'' then drop 1 t else t);
          hasPrefix = ((radix = 0 \<or> radix = 16) \<and> (take 2 u = ''0x'' \<or> take 2 u = ''0X''));
          v = (if hasPrefix then drop 2 u else u);
          R = (if hasPrefix then 16 else if radix = 0 then 10 else radix);
          z = takeWhile (is_digit_in R) v
      in if radix \<noteq> 0 \<and> (radix < 2 \<or> 36 < radix) then NaN
         else if z = [] then NaN
         else js_overflow (of_int ((if neg then - 1 else 1) * int (digits_value R z))))"

text \<open>
  \<^verbatim>\<open>parseFloat(s)\<close>: the longest prefix that is a decimal literal (sign, digits,
  fraction, exponent) or \<^verbatim>\<open>Infinity\<close>; \<open>NaN\<close> when there is none, and an
  infinity for a value beyond the doubles.
\<close>

definition js_parseFloat :: "string \<Rightarrow> jsnum" where
  "js_parseFloat s =
     (let t = dropWhile is_ws s;
          neg = (take 1 t = ''-'');
          u = (if take 1 t = ''+'' \<or> take 1 t = ''-'' then drop 1 t else t);
          ip = takeWhile (is_digit_in 10) u;
          u1 = drop (length ip) u;
          dot = (take 1 u1 = ''.'');
          fp = (if dot then takeWhile (is_digit_in 10) (drop 1 u1) else []);
          u2 = (if dot then drop (1 + length fp) u1 else u1);
          es = (if take 1 u2 = ''e'' \<or> take 1 u2 = ''E'' then drop 1 u2 else []);
          eneg = (take 1 es = ''-'');
          ed = takeWhile (is_digit_in 10)
                 (if take 1 es = ''+'' \<or> take 1 es = ''-'' then drop 1 es else es);
          mant = real (digits_value 10 (ip @ fp)) / 10 ^ length fp;
          ex = digits_value 10 ed
      in if take 8 u = ''Infinity'' then (if neg then NegInf else PosInf)
         else if ip = [] \<and> fp = [] then NaN
         else js_overflow ((if neg then - 1 else 1) * mant *
                           (if eneg then 1 / 10 ^ ex else 10 ^ ex)))"

subsection \<open>Numbers to strings\<close>

text \<open>
  \<^verbatim>\<open>n.toString(radix)\<close> for a natural number, and the conversion of a number to a
  string in a concatenation. A finite value is printed in positional notation: its
  integer part, and the digits of its fraction as long as there are any (at most 20).
  This is what JavaScript prints for the integers and the multiples of \<open>1/1000\<close> of
  magnitude below \<open>10\<^sup>2\<^sup>1\<close> that \<^verbatim>\<open>toString\<close> of a colour prints; the exponent
  notation of larger magnitudes is not modelled.
\<close>

definition digit_char :: "nat \<Rightarrow> char" where
  "digit_char d = ''0123456789abcdefghijklmnopqrstuvwxyz'' ! d"

function nat_to_string :: "nat \<Rightarrow> nat \<Rightarrow> string" where
  "nat_to_string radix n =
     (if radix < 2 \<or> n < radix then [digit_char n]
      else nat_to_string radix (n div radix) @ [digit_char (n mod radix)])"
  by pat_completeness auto
termination
  by (relation "measure snd") auto

declare nat_to_string.simps [simp del]

fun frac_digits :: "nat \<Rightarrow> nat \<Rightarrow> real \<Rightarrow> string" where
  "frac_digits radix 0 f = []"
| "frac_digits radix (Suc k) f =
     (if f = 0 then []
      else digit_char (nat \<lfloor>f * real radix\<rfloor>) #
           frac_digits radix k (f * real radix - of_int \<lfloor>f * real radix\<rfloor>))"

definition real_to_string :: "nat \<Rightarrow> real \<Rightarrow> string" where
  "real_to_string radix x =
     (let m = \<bar>x\<bar>; ip = nat \<lfloor>m\<rfloor>; f = m - of_int \<lfloor>m\<rfloor>
      in (if x < 0 then ''-'' else []) @ nat_to_string radix ip @
         (if f = 0 then [] else ''.'' @ frac_digits radix 20 f))"

fun num_to_string :: "nat \<Rightarrow> jsnum \<Rightarrow> string" where
  "num_to_string radix NaN = ''NaN''"
| "num_to_string radix PosInf = ''Infinity''"
| "num_to_string radix NegInf = ''-Infinity''"
| "num_to_string radix (Num x) = real_to_string radix x"

section \<open>The parser\<close>

text \<open>The table \<^verbatim>\<open>names\<close> of the CSS colour keywords, in the order of the source.\<close>

definition names :: "(string \<times> string) list" where
  "names = [
   (''aliceblue'', ''f0f8ff''), (''antiquewhite'', ''faebd7''), (''aqua'', ''0ff''),
   (''aquamarine'', ''7fffd4''), (''azure'', ''f0ffff''), (''beige'', ''f5f5dc''),
   (''bisque'', ''ffe4c4''), (''black'', ''000''), (''blanchedalmond'', ''ffebcd''),
   (''blue'', ''00f''), (''blueviolet'', ''8a2be2''), (''brown'', ''a52a2a''),
   (''burlywood'', ''deb887''), (''burntsienna'', ''ea7e5d''), (''cadetblue'', ''5f9ea0''),
   (''chartreuse'', ''7fff00''), (''chocolate'', ''d2691e''), (''coral'', ''ff7f50''),
   (''cornflowerblue'', ''6495ed''), (''cornsilk'', ''fff8dc''), (''crimson'', ''dc143c''),
   (''cyan'', ''0ff''), (''darkblue'', ''00008b''), (''darkcyan'', ''008b8b''),
   (''darkgoldenrod'', ''b8860b''), (''darkgray'', ''a9a9a9''), (''darkgreen'', ''006400''),
   (''darkgrey'', ''a9a9a9''), (''darkkhaki'', ''bdb76b''), (''darkmagenta'', ''8b008b''),
   (''darkolivegreen'', ''556b2f''), (''darkorange'', ''ff8c00''), (''darkorchid'', ''9932cc''),
   (''darkred'', ''8b0000''), (''darksalmon'', ''e9967a''), (''darkseagreen'', ''8fbc8f''),
   (''darkslateblue'', ''483d8b''), (''darkslategray'', ''2f4f4f''), (''darkslategrey'', ''2f4f4f''),
   (''darkturquoise'', ''00ced1''), (''darkviolet'', ''9400d3''), (''deeppink'', ''ff1493''),
   (''deepskyblue'', ''00bfff''), (''dimgray'', ''696969''), (''dimgrey'', ''696969''),
   (''dodgerblue'', ''1e90ff''), (''firebrick'', ''b22222''), (''floralwhite'', ''fffaf0''),
   (''forestgreen'', ''228b22''), (''fuchsia'', ''f0f''), (''gainsboro'', ''dcdcdc''),
   (''ghostwhite'', ''f8f8ff''), (''gold'', ''ffd700''), (''goldenrod'', ''daa520''),
   (''gray'', ''808080''), (''green'', ''008000''), (''greenyellow'', ''adff2f''),
   (''grey'', ''808080''), (''honeydew'', ''f0fff0''), (''hotpink'', ''ff69b4''),
   (''indianred'', ''cd5c5c''), (''indigo'', ''4b0082''), (''ivory'', ''fffff0''),
   (''khaki'', ''f0e68c''), (''lavender'', ''e6e6fa''), (''lavenderblush'', ''fff0f5''),
   (''lawngreen'', ''7cfc00''), (''lemonchiffon'', ''fffacd''), (''lightblue'', ''add8e6''),
   (''lightcoral'', ''f08080''), (''lightcyan'', ''e0ffff''), (''lightgoldenrodyellow'', ''fafad2''),
   (''lightgray'', ''d3d3d3''), (''lightgreen'', ''90ee90''), (''lightgrey'', ''d3d3d3''),
   (''lightpink'', ''ffb6c1''), (''lightsalmon'', ''ffa07a''), (''lightseagreen'', ''20b2aa''),
   (''lightskyblue'', ''87cefa''), (''lightslategray'', ''789''), (''lightslategrey'', ''789''),
   (''lightsteelblue'', ''b0c4de''), (''lightyellow'', ''ffffe0''), (''lime'', ''0f0''),
   (''limegreen'', ''32cd32''), (''linen'', ''faf0e6''), (''magenta'', ''f0f''),
   (''maroon'', ''800000''), (''mediumaquamarine'', ''66cdaa''), (''mediumblue'', ''0000cd''),
   (''mediumorchid'', ''ba55d3''), (''mediumpurple'', ''9370db''), (''mediumseagreen'', ''3cb371''),
   (''mediumslateblue'', ''7b68ee''), (''mediumspringgreen'', ''00fa9a''), (''mediumturquoise'', ''48d1cc''),
   (''mediumvioletred'', ''c71585''), (''midnightblue'', ''191970''), (''mintcream'', ''f5fffa''),
   (''mistyrose'', ''ffe4e1''), (''moccasin'', ''ffe4b5''), (''navajowhite'', ''ffdead''),
   (''navy'', ''000080''), (''oldlace'', ''fdf5e6''), (''olive'', ''808000''),
   (''olivedrab'', ''6b8e23''), (''orange'', ''ffa500''), (''orangered'', ''ff4500''),
   (''orchid'', ''da70d6''), (''palegoldenrod'', ''eee8aa''), (''palegreen'', ''98fb98''),
   (''paleturquoise'', ''afeeee''), (''palevioletred'', ''db7093''), (''papayawhip'', ''ffefd5''),
   (''peachpuff'', ''ffdab9''), (''peru'', ''cd853f''), (''pink'', ''ffc0cb''),
   (''plum'', ''dda0dd''), (''powderblue'', ''b0e0e6''), (''purple'', ''800080''),
   (''rebeccapurple'', ''663399''), (''red'', ''f00''), (''rosybrown'', ''bc8f8f''),
   (''royalblue'', ''4169e1''), (''saddlebrown'', ''8b4513''), (''salmon'', ''fa8072''),
   (''sandybrown'', ''f4a460''), (''seagreen'', ''2e8b57''), (''seashell'', ''fff5ee''),
   (''sienna'', ''a0522d''), (''silver'', ''c0c0c0''), (''skyblue'', ''87ceeb''),
   (''slateblue'', ''6a5acd''), (''slategray'', ''708090''), (''slategrey'', ''708090''),
   (''snow'', ''fffafa''), (''springgreen'', ''00ff7f''), (''steelblue'', ''4682b4''),
   (''tan'', ''d2b48c''), (''teal'', ''008080''), (''thistle'', ''d8bfd8''),
   (''tomato'', ''ff6347''), (''turquoise'', ''40e0d0''), (''violet'', ''ee82ee''),
   (''wheat'', ''f5deb3''), (''white'', ''fff''), (''whitesmoke'', ''f5f5f5''),
   (''yellow'', ''ff0''), (''yellowgreen'', ''9acd32'')
  ]"

text \<open>The object \<^verbatim>\<open>x\<close> that \<^verbatim>\<open>stringInputToObject\<close> returns.\<close>

record rgba =
  r :: jsnum
  g :: jsnum
  b :: jsnum
  a :: jsnum

text \<open>
  The branch for more than 9 characters: \<^verbatim>\<open>rgb(...)\<close> and \<^verbatim>\<open>rgba(...)\<close>. The string
  is split at the commas; with 3 or 4 components the first loses its 4 or 5 leading
  characters and the components are read by \<^verbatim>\<open>parseInt\<close>, the alpha component, when
  it is there and not empty, by \<^verbatim>\<open>parseFloat\<close>.
\<close>

definition first_component :: "string \<Rightarrow> string" where
  "first_component r0 =
     (if js_char_at r0 3 = Some CHR ''a'' then js_slice r0 5 None else js_slice r0 4 None)"

definition rgb_branch :: "string \<Rightarrow> rgba option" where
  "rgb_branch s =
     (case js_split CHR '','' s of
        [r0, g0, b0] \<Rightarrow>
          Some \<lparr>r = js_parseInt (first_component r0) 0, g = js_parseInt g0 0,
                b = js_parseInt b0 0, a = Num 1\<rparr>
      | [r0, g0, b0, a0] \<Rightarrow>
          Some \<lparr>r = js_parseInt (first_component r0) 0, g = js_parseInt g0 0,
                b = js_parseInt b0 0,
                a = (if a0 \<noteq> [] then js_parseFloat a0 else Num 1)\<rparr>
      | _ \<Rightarrow> None)"

text \<open>
  The branch for at most 9 characters: the hexadecimal forms. The lengths 8, 6 and
  below 4 are refused; below 6 every digit is doubled (the indices read are within the
  string, whose length is 4 or 5 there).
\<close>

definition hex_branch :: "string \<Rightarrow> rgba option" where
  "hex_branch s =
     (let n = length s in
      if n = 8 \<or> n = 6 \<or> n < 4 then None
      else
        let s2 = (if n < 6
                  then CHR ''#'' # [s ! 1, s ! 1, s ! 2, s ! 2, s ! 3, s ! 3] @
                       (if 4 < n then [s ! 4, s ! 4] else [])
                  else s);
            v = js_parseInt (js_slice s2 1 None) 16
        in if n = 9 \<or> n = 5
           then Some \<lparr>r = js_band (js_shr v 24) (Num 255),
                      g = js_band (js_shr v 16) (Num 255),
                      b = js_band (js_shr v 8) (Num 255),
                      a = js_div (js_round (js_div (js_band v (Num 255)) (Num 0.255)))
                            (Num 1000)\<rparr>
           else Some \<lparr>r = js_shr v 16,
                      g = js_band (js_shr v 8) (Num 255),
                      b = js_band v (Num 255),
                      a = Num 1\<rparr>)"

text \<open>
  \<^verbatim>\<open>stringInputToObject\<close>; \<open>None\<close> is its result \<^verbatim>\<open>null\<close>. The keys \<^verbatim>\<open>constructor\<close>
  and \<^verbatim>\<open>__proto__\<close>, which \<^verbatim>\<open>names[s]\<close> finds on the prototype of the table, lead to
  \<^verbatim>\<open>null\<close> in the source as they do here, where the table does not have them.
\<close>

definition stringInputToObject :: "string \<Rightarrow> rgba option" where
  "stringInputToObject s0 =
     (let s1 = toLowerCase (trim s0);
          named = map_of names s1;
          s = (case named of Some h \<Rightarrow> CHR ''#'' # h | None \<Rightarrow> s1)
      in if named = None \<and> s1 = ''transparent''
         then Some \<lparr>r = Num 0, g = Num 0, b = Num 0, a = Num 0\<rparr>
         else if js_char_at s 0 \<noteq> Some CHR ''r'' \<and> js_char_at s 0 \<noteq> Some CHR ''#'' then None
         else if 9 < length s then rgb_branch s
         else hex_branch s)"

section \<open>The colour value\<close>

text \<open>
  An instance of \<^verbatim>\<open>webcolor\<close>: the four channels and the two memo fields \<^verbatim>\<open>rl\<close>
  (relative luminance) and \<^verbatim>\<open>cb\<close> (colour brightness), \<open>None\<close> for \<^verbatim>\<open>null\<close>. The
  prototype gives the defaults.
\<close>

record webcolor = rgba +
  rl :: "jsnum option"
  cb :: "jsnum option"

definition prototype :: webcolor where
  "prototype = \<lparr>r = Num 0, g = Num 0, b = Num 0, a = Num 1, rl = None, cb = None\<rparr>"

datatype error = TypeError

text \<open>
  What the constructor is given: a string, an object with some of the keys
  \<^verbatim>\<open>r\<close>, \<^verbatim>\<open>g\<close>, \<^verbatim>\<open>b\<close>, \<^verbatim>\<open>a\<close> holding numbers (\<open>None\<close> for an absent key), or an
  instance.
\<close>

datatype input =
    InStr string
  | InObj "jsnum option" "jsnum option" "jsnum option" "jsnum option"
  | InColor webcolor

text \<open>Truthiness of an argument: of the inputs only the empty string is falsy.\<close>

fun truthy :: "input \<Rightarrow> bool" where
  "truthy (InStr s) = (s \<noteq> [])"
| "truthy _ = True"

text \<open>\<^verbatim>\<open>new webcolor({...})\<close>: the keys that are there are copied over the defaults.\<close>

definition webcolor_of_obj ::
  "jsnum option \<Rightarrow> jsnum option \<Rightarrow> jsnum option \<Rightarrow> jsnum option \<Rightarrow> webcolor" where
  "webcolor_of_obj ro go bo ao =
     prototype\<lparr>r := (case ro of Some v \<Rightarrow> v | None \<Rightarrow> r prototype),
               g := (case go of Some v \<Rightarrow> v | None \<Rightarrow> g prototype),
               b := (case bo of Some v \<Rightarrow> v | None \<Rightarrow> b prototype),
               a := (case ao of Some v \<Rightarrow> v | None \<Rightarrow> a prototype)\<rparr>"

text \<open>
  The constructor \<^verbatim>\<open>webcolor(c)\<close>. An instance is returned as it is. A string goes
  through \<^verbatim>\<open>stringInputToObject\<close>; when that returns \<^verbatim>\<open>null\<close>, the test
  \<^verbatim>\<open>typeof c === 'object'\<close> holds of \<^verbatim>\<open>null\<close> and reading \<^verbatim>\<open>c[v]\<close> throws a
  \<^verbatim>\<open>TypeError\<close>.
\<close>

definition webcolor :: "input \<Rightarrow> error + webcolor" where
  "webcolor c =
     (case c of
        InColor c0 \<Rightarrow> Inr c0
      | InStr s \<Rightarrow>
          (case stringInputToObject s of
             None \<Rightarrow> Inl TypeError
           | Some x \<Rightarrow>
               Inr (webcolor_of_obj (Some (r x)) (Some (g x)) (Some (b x)) (Some (a x))))
      | InObj ro go bo ao \<Rightarrow> Inr (webcolor_of_obj ro go bo ao))"

subsection \<open>Queries\<close>

text \<open>\<^verbatim>\<open>toString(format)\<close>; every format other than \<^verbatim>\<open>'hex'\<close> prints the \<^verbatim>\<open>rgb\<close> form.\<close>

definition toString :: "webcolor \<Rightarrow> string \<Rightarrow> string" where
  "toString this format =
     (let al = js_eq (a this) (Num 1) in
      if format = ''hex''
      then CHR ''#'' #
           js_slice
             (num_to_string 16
                (js_add
                   (js_add
                      (js_add
                         (js_add (Num 4294967296) (js_mul (js_round (r this)) (Num 16777216)))
                         (js_mul (js_round (g this)) (Num 65536)))
                      (js_mul (js_round (b this)) (Num 256)))
                   (if al then Num 0 else js_round (js_mul (a this) (Num 255)))))
             1 (if al then Some (- 2) else None)
      else if al
        then ''rgb('' @ num_to_string 10 (js_round (r this)) @ '','' @
             num_to_string 10 (js_round (g this)) @ '','' @
             num_to_string 10 (js_round (b this)) @ '')''
        else ''rgba('' @ num_to_string 10 (js_round (r this)) @ '','' @
             num_to_string 10 (js_round (g this)) @ '','' @
             num_to_string 10 (js_round (b this)) @ '','' @
             num_to_string 10 (js_div (js_round (js_mul (a this) (Num 1000))) (Num 1000)) @
             '')'')"

text \<open>
  \<^verbatim>\<open>getBrightness\<close> and \<^verbatim>\<open>getLuminance\<close> write their memo field on the first call;
  they return the value and the instance as it is after the call.
\<close>

definition getBrightness :: "webcolor \<Rightarrow> jsnum \<times> webcolor" where
  "getBrightness this =
     (case cb this of
        None \<Rightarrow>
          (let v = js_div
                     (js_add
                        (js_add (js_mul (r this) (Num 299)) (js_mul (g this) (Num 587)))
                        (js_mul (b this) (Num 114)))
                     (Num 1000)
           in (v, this\<lparr>cb := Some v\<rparr>))
      | Some v \<Rightarrow> (v, this))"

definition isDark :: "webcolor \<Rightarrow> bool \<times> webcolor" where
  "isDark this = (let (v, this1) = getBrightness this in (js_lt v (Num 128), this1))"

definition isWhite :: "webcolor \<Rightarrow> bool" where
  "isWhite this = (js_eq (r this) (Num 0) \<and> js_eq (g this) (Num 0) \<and> js_eq (b this) (Num 0))"

definition isBlack :: "webcolor \<Rightarrow> bool" where
  "isBlack this =
     (js_eq (r this) (Num 255) \<and> js_eq (g this) (Num 255) \<and> js_eq (b this) (Num 255))"

text \<open>One channel of \<^verbatim>\<open>getLuminance\<close>, from its share of the range to linear light.\<close>

definition linear_light :: "jsnum \<Rightarrow> jsnum" where
  "linear_light x =
     (if js_le x (Num 0.03928) then js_div x (Num 12.92)
      else js_pow (js_div (js_add x (Num 0.055)) (Num 1.055)) 2.4)"

definition getLuminance :: "webcolor \<Rightarrow> jsnum \<times> webcolor" where
  "getLuminance this =
     (case rl this of
        None \<Rightarrow>
          (let RsRGB = js_div (r this) (Num 255);
               GsRGB = js_div (g this) (Num 255);
               BsRGB = js_div (b this) (Num 255);
               v = js_add
                     (js_add (js_mul (Num 0.2126) (linear_light RsRGB))
                        (js_mul (Num 0.7152) (linear_light GsRGB)))
                     (js_mul (Num 0.0722) (linear_light BsRGB))
           in (v, this\<lparr>rl := Some v\<rparr>))
      | Some v \<Rightarrow> (v, this))"

text \<open>
  \<^verbatim>\<open>contrastRatio(c1)\<close>: the ratio, the receiver and the instance of \<^verbatim>\<open>c1\<close> after
  the call. \<open>contrastRatio_of\<close> is the body once \<^verbatim>\<open>c1\<close> is an instance.
\<close>

definition contrastRatio_of :: "webcolor \<Rightarrow> webcolor \<Rightarrow> jsnum \<times> webcolor \<times> webcolor" where
  "contrastRatio_of this c1 =
     (let (l0, this1) = getLuminance this;
          (l1, c2) = getLuminance c1
      in (js_div (js_add (js_max l0 l1) (Num 0.05)) (js_add (js_min l0 l1) (Num 0.05)),
          this1, c2))"

definition contrastRatio :: "webcolor \<Rightarrow> input \<Rightarrow> error + jsnum \<times> webcolor \<times> webcolor" where
  "contrastRatio this c1 =
     (case webcolor c1 of
        Inl e \<Rightarrow> Inl e
      | Inr c \<Rightarrow> Inr (contrastRatio_of this c))"

text \<open>\<^verbatim>\<open>equals(c1)\<close>\<close>

definition equals :: "webcolor \<Rightarrow> input \<Rightarrow> error + bool" where
  "equals this c1 =
     (case webcolor c1 of
        Inl e \<Rightarrow> Inl e
      | Inr c \<Rightarrow> Inr (toString this ''rgb'' = toString c ''rgb''))"

subsection \<open>Transforms\<close>

text \<open>\<^verbatim>\<open>withAlpha(a)\<close>; \<open>None\<close> is \<^verbatim>\<open>null\<close>.\<close>

definition withAlpha :: "webcolor \<Rightarrow> jsnum \<Rightarrow> webcolor option" where
  "withAlpha this a0 =
     (let a1 = (if js_gt a0 (Num 1) \<and> js_le a0 (Num 100) then js_div a0 (Num 100) else a0)
      in if js_ge a1 (Num 0) \<and> js_le a1 (Num 1)
         then Some (webcolor_of_obj (Some (r this)) (Some (g this)) (Some (b this)) (Some a1))
         else None)"

definition invert :: "webcolor \<Rightarrow> webcolor" where
  "invert this =
     webcolor_of_obj (Some (js_sub (Num 255) (r this))) (Some (js_sub (Num 255) (g this)))
       (Some (js_sub (Num 255) (b this))) (Some (a this))"

text \<open>
  \<^verbatim>\<open>shadeBlend(p, c1, l)\<close>. \<open>shadeBlend_of\<close> is the body after the first line, with
  \<^verbatim>\<open>c1\<close> an instance or \<open>None\<close> for a falsy \<^verbatim>\<open>c1\<close>; \<open>p\<close> is a number.
\<close>

definition shadeBlend_of :: "webcolor \<Rightarrow> jsnum \<Rightarrow> webcolor option \<Rightarrow> bool \<Rightarrow> webcolor option" where
  "shadeBlend_of this p0 c1 l =
     (if js_lt p0 (Num (- 1)) \<or> js_gt p0 (Num 1) then None
      else
        let P0 = js_lt p0 (Num 0);
            t = (case c1 of
                   Some c \<Rightarrow> rgba.truncate c
                 | None \<Rightarrow>
                     (if P0 then \<lparr>r = Num 0, g = Num 0, b = Num 0, a = Num 1\<rparr>
                      else \<lparr>r = Num 255, g = Num 255, b = Num 255, a = Num 1\<rparr>));
            p = (if P0 then js_mul p0 (Num (- 1)) else p0);
            P = js_sub (Num 1) p;
            mix = (\<lambda>x y.
                     if l then js_add (js_mul P x) (js_mul p y)
                     else js_pow (js_add (js_mul P (js_pow x 2)) (js_mul p (js_pow y 2))) 0.5);
            fa = (if js_ge (a this) (Num 0) \<or> js_ge (a t) (Num 0)
                  then (if js_lt (a this) (Num 0) then a t
                        else if js_lt (a t) (Num 0) then a this
                        else js_add (js_mul (a this) P) (js_mul (a t) p))
                  else Num 1)
        in Some (webcolor_of_obj (Some (mix (r this) (r t))) (Some (mix (g this) (g t)))
                   (Some (mix (b this) (b t))) (Some fa)))"

definition shadeBlend ::
  "webcolor \<Rightarrow> jsnum \<Rightarrow> input option \<Rightarrow> bool \<Rightarrow> error + webcolor option" where
  "shadeBlend this p c1 l =
     (case c1 of
        None \<Rightarrow> Inr (shadeBlend_of this p None l)
      | Some i \<Rightarrow>
          (if truthy i
           then (case webcolor i of
                   Inl e \<Rightarrow> Inl e
                 | Inr c \<Rightarrow> Inr (shadeBlend_of this p (Some c) l))
           else Inr (shadeBlend_of this p None l)))"

subsection \<open>The contrast search\<close>

text \<open>
  The choice of the shade direction in the loop of \<^verbatim>\<open>contrastingColor\<close>: \<open>- 1\<close>
  darkens, \<open>1\<close> lightens. The result carries the receiver and the candidate after the
  calls.
\<close>

definition shade_direction ::
  "webcolor \<Rightarrow> webcolor \<Rightarrow> jsnum \<Rightarrow> error + jsnum \<times> webcolor \<times> webcolor" where
  "shade_direction this target cmin =
     (let (tl, target1) = getLuminance target;
          (l, this1) = getLuminance this
      in if js_eq tl l
         then (let (d, this2) = isDark this1
               in Inr (if d then Num 1 else Num (- 1), this2, target1))
         else if js_lt tl l
         then (case contrastRatio this1 (InStr ''#000000'') of
                 Inl e \<Rightarrow> Inl e
               | Inr (c, this2, _) \<Rightarrow>
                   Inr (if js_gt c cmin then Num (- 1) else Num 1, this2, target1))
         else (case contrastRatio this1 (InStr ''#ffffff'') of
                 Inl e \<Rightarrow> Inl e
               | Inr (c, this2, _) \<Rightarrow>
                   Inr (if js_gt c cmin then Num 1 else Num (- 1), this2, target1)))"

text \<open>
  One turn of the loop body: the direction, the shading of the candidate by 20 percent,
  and the test for an end of the range. It gives the receiver, the new candidate and
  \<^verbatim>\<open>maxReached\<close>. A \<^verbatim>\<open>null\<close> from \<^verbatim>\<open>shadeBlend\<close> would throw at \<^verbatim>\<open>isBlack\<close>.
\<close>

definition contrast_step ::
  "webcolor \<Rightarrow> webcolor \<Rightarrow> jsnum \<Rightarrow> error + webcolor \<times> webcolor \<times> bool" where
  "contrast_step this target cmin =
     (case shade_direction this target cmin of
        Inl e \<Rightarrow> Inl e
      | Inr (sd, this1, target1) \<Rightarrow>
          (case shadeBlend target1 (js_mul (Num 0.2) sd) None False of
             Inl e \<Rightarrow> Inl e
           | Inr None \<Rightarrow> Inl TypeError
           | Inr (Some target2) \<Rightarrow>
               Inr (this1, target2, isBlack target2 \<or> isWhite target2)))"

text \<open>The \<^verbatim>\<open>while\<close> loop; \<open>None\<close> when it runs forever.\<close>

partial_function (option) contrast_loop ::
  "webcolor \<Rightarrow> webcolor \<Rightarrow> jsnum \<Rightarrow> bool \<Rightarrow> (error + webcolor) option" where
  "contrast_loop this target cmin maxReached =
     (case contrastRatio_of this target of
        (c, this1, target1) \<Rightarrow>
          if js_lt c cmin \<and> \<not> maxReached
          then (case contrast_step this1 target1 cmin of
                  Inl e \<Rightarrow> Some (Inl e)
                | Inr (this2, target2, mr) \<Rightarrow> contrast_loop this2 target2 cmin mr)
          else Some (Inr target1))"

text \<open>
  \<^verbatim>\<open>contrastingColor(targetcolor, cmin)\<close>; \<open>None\<close> for the target is \<^verbatim>\<open>null\<close>, the
  default.
\<close>

definition contrastingColor ::
  "webcolor \<Rightarrow> input option \<Rightarrow> jsnum \<Rightarrow> (error + webcolor) option" where
  "contrastingColor this targetcolor cmin =
     (let no_target =
            (if fst (isDark this)
             then Some (Inr (webcolor_of_obj (Some (Num 255)) (Some (Num 255)) (Some (Num 255))
                               None))
             else Some (Inr (webcolor_of_obj (Some (Num 0)) (Some (Num 0)) (Some (Num 0))
                               None)))
      in case targetcolor of
           None \<Rightarrow> no_target
         | Some i \<Rightarrow>
             (if truthy i
              then (case webcolor i of
                      Inl e \<Rightarrow> Some (Inl e)
                    | Inr target \<Rightarrow> contrast_loop this target cmin False)
              else no_target))"

subsection \<open>The memo fields\<close>

text \<open>
  The value that a first call of \<^verbatim>\<open>getBrightness\<close> or \<^verbatim>\<open>getLuminance\<close> computes
  from the channels, and the invariant of the memo fields: each is empty or holds that
  value. Every instance that the constructor or a transform returns has both fields
  empty, and the two getters keep the invariant; only an assignment to a channel from
  outside, which no method makes, breaks it.
\<close>

definition brightness_of :: "webcolor \<Rightarrow> jsnum" where
  "brightness_of c = fst (getBrightness (c\<lparr>cb := None\<rparr>))"

definition luminance_of :: "webcolor \<Rightarrow> jsnum" where
  "luminance_of c = fst (getLuminance (c\<lparr>rl := None\<rparr>))"

definition memo_ok :: "webcolor \<Rightarrow> bool" where
  "memo_ok c =
     ((rl c = None \<or> rl c = Some (luminance_of c)) \<and>
      (cb c = None \<or> cb c = Some (brightness_of c)))"

subsection \<open>Luminance and contrast over the reals\<close>

text \<open>
  For finite channels of at most 255, where no power overflows, the computation of
  \<^verbatim>\<open>getLuminance\<close> and the quotient of \<^verbatim>\<open>contrastRatio\<close> are the following
  functions.
\<close>

definition lin :: "real \<Rightarrow> real" where
  "lin x = (if x \<le> 0.03928 then x / 12.92 else ((x + 0.055) / 1.055) powr 2.4)"

definition lum3 :: "real \<Rightarrow> real \<Rightarrow> real \<Rightarrow> real" where
  "lum3 x y z = 0.2126 * lin (x / 255) + 0.7152 * lin (y / 255) + 0.0722 * lin (z / 255)"

definition ratio_of :: "jsnum \<Rightarrow> jsnum \<Rightarrow> jsnum" where
  "ratio_of l0 l1 = js_div (js_add (js_max l0 l1) (Num 0.05)) (js_add (js_min l0 l1) (Num 0.05))"

subsection \<open>Character classes of the table\<close>

definition is_lower_letter :: "char \<Rightarrow> bool" where
  "is_lower_letter c = (c \<in> set ''abcdefghijklmnopqrstuvwxyz'')"

subsection \<open>Channels in range\<close>

text \<open>
  A channel in range is a finite value in \<open>[0, 255]\<close>. \<open>blend2 x y\<close> is the channel that
  the default mode of \<^verbatim>\<open>shadeBlend\<close> computes from \<open>x\<close> and the blend channel \<open>y\<close>
  for a shade of 20 percent.
\<close>

fun chan_ok :: "jsnum \<Rightarrow> bool" where
  "chan_ok (Num x) = (0 \<le> x \<and> x \<le> 255)"
| "chan_ok _ = False"

definition in_gamut :: "webcolor \<Rightarrow> bool" where
  "in_gamut c = (chan_ok (r c) \<and> chan_ok (g c) \<and> chan_ok (b c))"

definition blend2 :: "real \<Rightarrow> real \<Rightarrow> real" where
  "blend2 x y = sqrt (0.8 * x\<^sup>2 + 0.2 * y\<^sup>2)"

text \<open>
  The states of the contrast search from which no turn of the loop can end it: the
  receiver and the candidate are in range with intact memo fields, the candidate is
  neither end of the range, and the ratio asked for is above 21.
\<close>

definition search_inv :: "webcolor \<Rightarrow> webcolor \<Rightarrow> jsnum \<Rightarrow> bool \<Rightarrow> bool" where
  "search_inv this target cmin mr =
     (memo_ok this \<and> in_gamut this \<and> memo_ok target \<and> in_gamut target \<and>
      \<not> isBlack target \<and> \<not> isWhite target \<and> js_lt (Num 21) cmin \<and> \<not> mr)"

subsection \<open>One step of the contrast search\<close>

text \<open>
  The two shadings that a turn of the loop chooses between, and the candidate after one
  turn (\<open>None\<close> when the turn throws).
\<close>

definition darken :: "webcolor \<Rightarrow> webcolor option" where
  "darken c = shadeBlend_of c (js_mul (Num 0.2) (Num (- 1))) None False"

definition lighten :: "webcolor \<Rightarrow> webcolor option" where
  "lighten c = shadeBlend_of c (js_mul (Num 0.2) (Num 1)) None False"

definition next_candidate :: "webcolor \<Rightarrow> webcolor \<Rightarrow> jsnum \<Rightarrow> webcolor option" where
  "next_candidate this target cmin =
     (case contrast_step this target cmin of
        Inl e \<Rightarrow> None
      | Inr (this1, target1, mr) \<Rightarrow> Some target1)"

text \<open>An alpha in range is a finite value in \<open>[0, 1]\<close>.\<close>

fun alpha_ok :: "jsnum \<Rightarrow> bool" where
  "alpha_ok (Num x) = (0 \<le> x \<and> x \<le> 1)"
| "alpha_ok _ = False"

subsection \<open>Hexadecimal digits\<close>

text \<open>
  The lower-case hexadecimal digits, the value of a digit, and the expansion of the
  short forms by doubling every digit.
\<close>

definition is_hex :: "char \<Rightarrow> bool" where
  "is_hex c = (c \<in> set ''0123456789abcdef'')"

definition hexval :: "char \<Rightarrow> nat" where
  "hexval c = digits_value 16 [c]"

definition double_digits :: "string \<Rightarrow> string" where
  "double_digits ds = concat (map (\<lambda>c. [c, c]) ds)"

text \<open>
  The colour that a string of 3, 4, 6 or 8 hexadecimal digits denotes: the short forms
  are expanded, the bytes are read from the left, and a fourth byte is the alpha,
  divided by 255 and rounded to three decimals.
\<close>

definition hex_byte :: "string \<Rightarrow> nat \<Rightarrow> nat" where
  "hex_byte es i = digits_value 16 (take 2 (drop (2 * i) es))"

definition hex_color :: "string \<Rightarrow> rgba" where
  "hex_color ds =
     (let es = (if length ds < 5 then double_digits ds else ds) in
      \<lparr>r = Num (real (hex_byte es 0)), g = Num (real (hex_byte es 1)),
       b = Num (real (hex_byte es 2)),
       a = (if length es = 8
            then Num (real_of_int \<lfloor>real (hex_byte es 3) / 255 * 1000 + 1 / 2\<rfloor> / 1000)
            else Num 1)\<rparr>)"

text \<open>The canonical six digits of a table entry: a short entry is expanded.\<close>

definition canonical_hex :: "string \<Rightarrow> string" where
  "canonical_hex v = (if length v = 3 then double_digits v else v)"

section \<open>Doubles\<close>

text \<open>
  The numbers of the program are IEEE doubles: every sum and product is rounded to the
  nearest double, a tie going to the even significand. \<open>to_double\<close> is that rounding on
  the values in the normal range of the doubles, where a double has 53 significant
  bits; a literal of the program text denotes the double nearest to it.
\<close>

definition round_even :: "real \<Rightarrow> int" where
  "round_even x =
     (let n = \<lfloor>x\<rfloor>; d = x - of_int n
      in if d < 1 / 2 then n else if 1 / 2 < d then n + 1 else if even n then n else n + 1)"

definition to_double :: "real \<Rightarrow> real" where
  "to_double x =
     (if x = 0 then 0
      else let e = \<lfloor>log 2 \<bar>x\<bar>\<rfloor> - 52
           in of_int (round_even (x / 2 powr of_int e)) * 2 powr of_int e)"

text \<open>
  One channel of \<^verbatim>\<open>shadeBlend\<close> in linear mode for an amount \<open>p\<close> that is not
  negative, as the doubles compute it: \<^verbatim>\<open>P = 1 - p\<close>, then
  \<^verbatim>\<open>f.r = P * this.r + p * t.r\<close>, each operation rounded.
\<close>

definition linear_channel_double :: "real \<Rightarrow> real \<Rightarrow> real \<Rightarrow> real" where
  "linear_channel_double p x t =
     (let P = to_double (1 - p)
      in to_double (to_double (P * x) + to_double (p * t)))"

section \<open>Properties\<close>

subsection \<open>Numbers\<close>

lemma brightness_formula:
  "js_div (js_add (js_add (js_mul x (Num 299)) (js_mul y (Num 587))) (js_mul z (Num 114)))
     (Num 1000) =
   js_add (js_add (js_mul (Num 0.299) x) (js_mul (Num 0.587) y)) (js_mul (Num 0.114) z)"
  by (cases x; cases y; cases z) (simp_all add: inf_of_sign_def field_simps)

lemma double_limit_large: "2 ^ 64 < double_limit"
  by (simp add: double_limit_def)

lemma js_overflow_Num: "\<bar>v\<bar> \<le> 2 ^ 64 \<Longrightarrow> js_overflow v = Num v"
  using double_limit_large by (auto simp add: js_overflow_def)

subsection \<open>Memo fields\<close>

lemma memo_ok_new [simp]: "memo_ok (webcolor_of_obj ro go bo ao)"
  by (simp add: memo_ok_def webcolor_of_obj_def prototype_def)

lemma getBrightness_memo: "memo_ok c \<Longrightarrow> fst (getBrightness c) = brightness_of c"
  by (auto simp add: memo_ok_def brightness_of_def getBrightness_def Let_def
      split: option.splits)

lemma getLuminance_memo: "memo_ok c \<Longrightarrow> fst (getLuminance c) = luminance_of c"
  by (auto simp add: memo_ok_def luminance_of_def getLuminance_def Let_def
      split: option.splits)

lemma brightness_of_eq:
  "brightness_of c =
   js_add (js_add (js_mul (Num 0.299) (r c)) (js_mul (Num 0.587) (g c)))
     (js_mul (Num 0.114) (b c))"
  by (simp add: brightness_of_def getBrightness_def Let_def brightness_formula)

subsection \<open>Channel tests and brightness\<close>

lemma isBlack_iff: "isBlack c = (r c = Num 255 \<and> g c = Num 255 \<and> b c = Num 255)"
  by (auto simp add: isBlack_def js_eq_def)

lemma isWhite_iff: "isWhite c = (r c = Num 0 \<and> g c = Num 0 \<and> b c = Num 0)"
  by (auto simp add: isWhite_def js_eq_def)

lemma isDark_fst: "fst (isDark c) = js_lt (fst (getBrightness c)) (Num 128)"
  by (simp add: isDark_def split_beta)



subsection \<open>Alpha\<close>

text \<open>
  Claim C9. \<^verbatim>\<open>withAlpha(a)\<close> divides \<open>a\<close> by 100 when it lies in \<open>(1, 100]\<close>; it
  returns a new colour with the channels of the receiver and that alpha exactly when
  the alpha then lies in \<open>[0, 1]\<close>, and \<^verbatim>\<open>null\<close> otherwise, also for \<open>NaN\<close> and the
  infinities. The method has no assignment to the receiver.
\<close>

theorem withAlpha_cases:
  "withAlpha c (Num x) =
     (if 0 \<le> x \<and> x \<le> 1
        then Some \<lparr>r = r c, g = g c, b = b c, a = Num x, rl = None, cb = None\<rparr>
      else if 1 < x \<and> x \<le> 100
        then Some \<lparr>r = r c, g = g c, b = b c, a = Num (x / 100), rl = None, cb = None\<rparr>
      else None) \<and>
   withAlpha c NaN = None \<and> withAlpha c PosInf = None \<and> withAlpha c NegInf = None"
  by (simp add: withAlpha_def js_gt_def js_le_def js_ge_def webcolor_of_obj_def
      prototype_def)

subsection \<open>Luminance and contrast ratio\<close>

lemma linear_light_Num:
  assumes "x \<le> 1"
  shows "linear_light (Num x) = Num (lin x)"
proof (cases "x \<le> 0.03928")
  case True
  then show ?thesis by (simp add: linear_light_def lin_def js_le_def)
next
  case False
  define u where "u = (x + 0.055) / 1.055"
  have u: "0 < u" "u \<le> 1" using False assms by (simp_all add: u_def)
  have "u powr 2.4 \<le> 1" using u by (simp add: powr_le1)
  moreover have "0 \<le> u powr 2.4" by simp
  ultimately have "js_overflow (u powr 2.4) = Num (u powr 2.4)"
    by (intro js_overflow_Num) simp
  moreover have "js_pow (Num u) 2.4 = js_overflow (u powr 2.4)"
    using u(1) by (simp add: js_pow_def)
  ultimately show ?thesis
    using False by (simp add: linear_light_def lin_def js_le_def u_def)
qed

lemma luminance_of_Num:
  assumes "r c = Num x" "g c = Num y" "b c = Num z" and "x \<le> 255" "y \<le> 255" "z \<le> 255"
  shows "luminance_of c = Num (lum3 x y z)"
proof -
  have "x / 255 \<le> 1" "y / 255 \<le> 1" "z / 255 \<le> 1" using assms(4-6) by simp_all
  then show ?thesis
    using assms(1-3)
    by (simp add: luminance_of_def getLuminance_def Let_def linear_light_Num lum3_def)
qed

lemma lin_nonneg: "0 \<le> x \<Longrightarrow> 0 \<le> lin x"
  by (simp add: lin_def)

lemma lin_le_one: "0 \<le> x \<Longrightarrow> x \<le> 1 \<Longrightarrow> lin x \<le> 1"
  by (auto simp add: lin_def intro!: powr_le1)

lemma lin_one: "lin 1 = 1"
  by (simp add: lin_def)

lemma lin_zero: "lin 0 = 0"
  by (simp add: lin_def)

lemma lum3_bounds:
  assumes "0 \<le> x" "x \<le> 255" "0 \<le> y" "y \<le> 255" "0 \<le> z" "z \<le> 255"
  shows "0 \<le> lum3 x y z" "lum3 x y z \<le> 1"
proof -
  have x: "0 \<le> lin (x / 255)" "lin (x / 255) \<le> 1"
    using assms by (simp_all add: lin_nonneg lin_le_one)
  have y: "0 \<le> lin (y / 255)" "lin (y / 255) \<le> 1"
    using assms by (simp_all add: lin_nonneg lin_le_one)
  have z: "0 \<le> lin (z / 255)" "lin (z / 255) \<le> 1"
    using assms by (simp_all add: lin_nonneg lin_le_one)
  show "0 \<le> lum3 x y z" using x y z by (simp add: lum3_def)
  have "0.2126 * lin (x / 255) + 0.7152 * lin (y / 255) + 0.0722 * lin (z / 255)
        \<le> 0.2126 * 1 + 0.7152 * 1 + 0.0722 * 1"
    using x y z by (intro add_mono mult_left_mono) simp_all
  then show "lum3 x y z \<le> 1" by (simp add: lum3_def)
qed

lemma luminance_of_rl [simp]: "luminance_of (c\<lparr>rl := v\<rparr>) = luminance_of c"
  by (simp add: luminance_of_def)

lemma luminance_of_cb [simp]: "luminance_of (c\<lparr>cb := v\<rparr>) = luminance_of c"
  by (simp add: luminance_of_def getLuminance_def Let_def)

lemma luminance_of_a [simp]: "luminance_of (c\<lparr>a := v\<rparr>) = luminance_of c"
  by (simp add: luminance_of_def getLuminance_def Let_def)

lemma brightness_of_rl [simp]: "brightness_of (c\<lparr>rl := v\<rparr>) = brightness_of c"
  by (simp add: brightness_of_def getBrightness_def Let_def)

lemma brightness_of_cb [simp]: "brightness_of (c\<lparr>cb := v\<rparr>) = brightness_of c"
  by (simp add: brightness_of_def)

lemma getLuminance_eq:
  "memo_ok c \<Longrightarrow> getLuminance c = (luminance_of c, c\<lparr>rl := Some (luminance_of c)\<rparr>)"
  by (auto simp add: memo_ok_def luminance_of_def getLuminance_def Let_def
      split: option.splits)

lemma getBrightness_eq:
  "memo_ok c \<Longrightarrow> getBrightness c = (brightness_of c, c\<lparr>cb := Some (brightness_of c)\<rparr>)"
  by (auto simp add: memo_ok_def brightness_of_def getBrightness_def Let_def
      split: option.splits)

lemma memo_ok_rl: "memo_ok c \<Longrightarrow> memo_ok (c\<lparr>rl := Some (luminance_of c)\<rparr>)"
  by (simp add: memo_ok_def)

lemma memo_ok_cb: "memo_ok c \<Longrightarrow> memo_ok (c\<lparr>cb := Some (brightness_of c)\<rparr>)"
  by (simp add: memo_ok_def)

lemma contrastRatio_of_eq:
  "memo_ok c \<Longrightarrow> memo_ok d \<Longrightarrow>
   contrastRatio_of c d =
     (ratio_of (luminance_of c) (luminance_of d),
      c\<lparr>rl := Some (luminance_of c)\<rparr>, d\<lparr>rl := Some (luminance_of d)\<rparr>)"
  by (simp add: contrastRatio_of_def getLuminance_eq ratio_of_def)

lemma ratio_of_Num:
  "ratio_of (Num x) (Num y) =
     (if min x y + 0.05 = 0 then inf_of_sign (sgn (max x y + 0.05))
      else Num ((max x y + 0.05) / (min x y + 0.05)))"
  by (auto simp add: ratio_of_def js_max_def js_min_def max_def min_def)

lemma ratio_of_sym: "ratio_of x y = ratio_of y x"
  by (cases x; cases y) (auto simp add: ratio_of_def js_max_def js_min_def)

lemma ratio_of_refl: "x \<noteq> - 0.05 \<Longrightarrow> ratio_of (Num x) (Num x) = Num 1"
  by (simp add: ratio_of_Num)

lemma ratio_of_le_21:
  assumes "0 \<le> x" "x \<le> 1" "0 \<le> y" "y \<le> 1"
  shows "\<exists>q. ratio_of (Num x) (Num y) = Num q \<and> 1 \<le> q \<and> q \<le> 21"
proof -
  have pos: "0 < min x y + 0.05" using assms by (simp add: min_def)
  have "(max x y + 0.05) / (min x y + 0.05) \<le> 21"
    using assms pos by (simp add: field_simps max_def min_def)
  moreover have "1 \<le> (max x y + 0.05) / (min x y + 0.05)"
    using assms pos by (simp add: field_simps max_def min_def)
  ultimately show ?thesis using pos by (simp add: ratio_of_Num)
qed

subsection \<open>Parsing the two literals of the contrast search\<close>

lemma names_keys_letters: "list_all (\<lambda>(k, v). list_all is_lower_letter k) names"
  by code_simp

lemma map_of_names_None:
  assumes "c \<in> set s" "\<not> is_lower_letter c"
  shows "map_of names s = None"
proof (rule ccontr)
  assume "map_of names s \<noteq> None"
  then obtain v where "map_of names s = Some v" by auto
  then have "(s, v) \<in> set names" by (rule map_of_SomeD)
  with names_keys_letters have "list_all is_lower_letter s"
    by (auto simp add: list_all_iff)
  with assms show False by (simp add: list_all_iff)
qed

lemma hash_not_letter: "\<not> is_lower_letter CHR ''#''"
  by (simp add: is_lower_letter_def)

lemma map_of_names_hash [simp]: "map_of names (CHR ''#'' # s) = None"
  by (rule map_of_names_None [of "CHR ''#''"]) (simp_all add: hash_not_letter)

lemmas parse_int_defs = js_parseInt_def is_ws_def is_digit_in_def digit_value_def
  digits_value_def lower_char_def js_overflow_def double_limit_def

lemmas norm_defs = toLowerCase_def trim_def is_ws_def lower_char_def

lemmas hex_branch_defs = hex_branch_def js_slice_def slice_index_def js_shr_def js_band_def
  Let_def

lemma parse_black:
  "stringInputToObject ''#000000'' = Some \<lparr>r = Num 0, g = Num 0, b = Num 0, a = Num 1\<rparr>"
proof -
  have n: "toLowerCase (trim ''#000000'') = ''#000000''"
    by (simp add: norm_defs)
  have p: "js_parseInt ''000000'' 16 = Num 0"
    by (simp add: parse_int_defs)
  have h: "hex_branch ''#000000'' = Some \<lparr>r = Num 0, g = Num 0, b = Num 0, a = Num 1\<rparr>"
    by (simp add: hex_branch_defs p)
  show ?thesis
    by (simp add: stringInputToObject_def n js_char_at_def h)
qed

lemma parse_white:
  "stringInputToObject ''#ffffff'' =
     Some \<lparr>r = Num 255, g = Num 255, b = Num 255, a = Num 1\<rparr>"
proof -
  have n: "toLowerCase (trim ''#ffffff'') = ''#ffffff''"
    by (simp add: norm_defs)
  have p: "js_parseInt ''ffffff'' 16 = Num 16777215"
    by (simp add: parse_int_defs)
  have h: "hex_branch ''#ffffff'' =
             Some \<lparr>r = Num 255, g = Num 255, b = Num 255, a = Num 1\<rparr>"
    by (simp add: hex_branch_defs p)
  show ?thesis
    by (simp add: stringInputToObject_def n js_char_at_def h)
qed

lemma webcolor_black:
  "webcolor (InStr ''#000000'') =
     Inr \<lparr>r = Num 0, g = Num 0, b = Num 0, a = Num 1, rl = None, cb = None\<rparr>"
  by (simp add: webcolor_def parse_black webcolor_of_obj_def prototype_def)

lemma webcolor_white:
  "webcolor (InStr ''#ffffff'') =
     Inr \<lparr>r = Num 255, g = Num 255, b = Num 255, a = Num 1, rl = None, cb = None\<rparr>"
  by (simp add: webcolor_def parse_white webcolor_of_obj_def prototype_def)

subsection \<open>The shade direction\<close>

lemma lum3_black: "lum3 0 0 0 = 0"
  by (simp add: lum3_def lin_def)

lemma lum3_white: "lum3 255 255 255 = 1"
  by (simp add: lum3_def lin_def)

lemma memo_ok_fresh: "rl c = None \<Longrightarrow> cb c = None \<Longrightarrow> memo_ok c"
  by (simp add: memo_ok_def)

lemma contrastRatio_black:
  assumes "memo_ok c"
  shows "contrastRatio c (InStr ''#000000'') =
     Inr (ratio_of (luminance_of c) (Num 0), c\<lparr>rl := Some (luminance_of c)\<rparr>,
          \<lparr>r = Num 0, g = Num 0, b = Num 0, a = Num 1, rl = Some (Num 0), cb = None\<rparr>)"
  using assms
  by (simp add: contrastRatio_def webcolor_black contrastRatio_of_eq memo_ok_fresh
      luminance_of_Num lum3_black)

lemma contrastRatio_white:
  assumes "memo_ok c"
  shows "contrastRatio c (InStr ''#ffffff'') =
     Inr (ratio_of (luminance_of c) (Num 1), c\<lparr>rl := Some (luminance_of c)\<rparr>,
          \<lparr>r = Num 255, g = Num 255, b = Num 255, a = Num 1, rl = Some (Num 1), cb = None\<rparr>)"
  using assms
  by (simp add: contrastRatio_def webcolor_white contrastRatio_of_eq memo_ok_fresh
      luminance_of_Num lum3_white)

lemma shade_direction_eq:
  assumes "memo_ok this" "memo_ok target"
  shows "shade_direction this target cmin =
     Inr (if js_eq (luminance_of target) (luminance_of this)
            then (if js_lt (brightness_of this) (Num 128) then Num 1 else Num (- 1))
          else if js_lt (luminance_of target) (luminance_of this)
            then (if js_gt (ratio_of (luminance_of this) (Num 0)) cmin then Num (- 1) else Num 1)
          else (if js_gt (ratio_of (luminance_of this) (Num 1)) cmin then Num 1 else Num (- 1)),
          if js_eq (luminance_of target) (luminance_of this)
            then this\<lparr>rl := Some (luminance_of this), cb := Some (brightness_of this)\<rparr>
            else this\<lparr>rl := Some (luminance_of this)\<rparr>,
          target\<lparr>rl := Some (luminance_of target)\<rparr>)"
  using assms
  by (simp add: shade_direction_def getLuminance_eq isDark_def getBrightness_eq memo_ok_rl
      contrastRatio_black contrastRatio_white)

subsection \<open>Shading by 20 percent\<close>

lemma sq_le_255: "0 \<le> (x::real) \<Longrightarrow> x \<le> 255 \<Longrightarrow> x\<^sup>2 \<le> 65025"
  using power_mono [of x 255 2] by simp

lemma js_pow_2_Num:
  assumes "\<bar>x\<bar> \<le> 2 ^ 32"
  shows "js_pow (Num x) 2 = Num (x\<^sup>2)"
proof -
  have "\<bar>x\<bar>\<^sup>2 \<le> (2 ^ 32)\<^sup>2" using assms by (intro power_mono) simp_all
  then have "\<bar>x\<^sup>2\<bar> \<le> 2 ^ 64" by simp
  then have o: "js_overflow (x\<^sup>2) = Num (x\<^sup>2)" by (rule js_overflow_Num)
  show ?thesis
  proof (cases "0 < x")
    case True
    then show ?thesis using o by (simp add: js_pow_def powr_numeral)
  next
    case False
    then show ?thesis
    proof (cases "x = 0")
      case True
      then show ?thesis by (simp add: js_pow_def)
    next
      case False
      with \<open>\<not> 0 < x\<close> have "0 < \<bar>x\<bar>" by simp
      then have "\<bar>x\<bar> powr 2 = \<bar>x\<bar>\<^sup>2" by (simp add: powr_numeral)
      with \<open>\<not> 0 < x\<close> False show ?thesis using o by (simp add: js_pow_def)
    qed
  qed
qed

lemma js_pow_half_Num:
  assumes "0 \<le> v" "v \<le> 2 ^ 64"
  shows "js_pow (Num v) (1 / 2) = Num (sqrt v)"
proof (cases "v = 0")
  case True
  then show ?thesis by (simp add: js_pow_def)
next
  case False
  have "sqrt v \<le> 2 ^ 32" using assms by (intro real_le_lsqrt) simp_all
  moreover have "0 \<le> sqrt v" using assms(1) by simp
  ultimately have "js_overflow (sqrt v) = Num (sqrt v)" by (intro js_overflow_Num) simp
  then show ?thesis using False assms(1) by (simp add: js_pow_def powr_half_sqrt)
qed

lemma shadeBlend_darken:
  assumes "r c = Num x" "g c = Num y" "b c = Num z"
    and "0 \<le> x" "x \<le> 255" "0 \<le> y" "y \<le> 255" "0 \<le> z" "z \<le> 255"
  shows "\<exists>fa. shadeBlend c (js_mul (Num 0.2) (Num (- 1))) None False =
     Inr (Some \<lparr>r = Num (blend2 x 0), g = Num (blend2 y 0), b = Num (blend2 z 0), a = fa,
                 rl = None, cb = None\<rparr>)"
  using assms sq_le_255 [of x] sq_le_255 [of y] sq_le_255 [of z]
  by (simp add: shadeBlend_def shadeBlend_of_def js_gt_def js_sub_def rgba.defs
      js_pow_2_Num js_pow_half_Num webcolor_of_obj_def prototype_def blend2_def Let_def)

lemma shadeBlend_lighten:
  assumes "r c = Num x" "g c = Num y" "b c = Num z"
    and "0 \<le> x" "x \<le> 255" "0 \<le> y" "y \<le> 255" "0 \<le> z" "z \<le> 255"
  shows "\<exists>fa. shadeBlend c (js_mul (Num 0.2) (Num 1)) None False =
     Inr (Some \<lparr>r = Num (blend2 x 255), g = Num (blend2 y 255), b = Num (blend2 z 255), a = fa,
                 rl = None, cb = None\<rparr>)"
  using assms sq_le_255 [of x] sq_le_255 [of y] sq_le_255 [of z]
  by (simp add: shadeBlend_def shadeBlend_of_def js_gt_def js_sub_def rgba.defs
      js_pow_2_Num js_pow_half_Num webcolor_of_obj_def prototype_def blend2_def Let_def)

lemma blend2_nonneg: "0 \<le> blend2 x y"
  by (simp add: blend2_def)

lemma blend2_le: "0 \<le> x \<Longrightarrow> x \<le> 255 \<Longrightarrow> blend2 x 0 \<le> 255 \<and> blend2 x 255 \<le> 255"
proof -
  assume a: "0 \<le> x" "x \<le> 255"
  have s: "sqrt 65025 = 255" using real_sqrt_abs [of 255] by simp
  have "0.8 * x\<^sup>2 + 0.2 * 0\<^sup>2 \<le> 65025" "0.8 * x\<^sup>2 + 0.2 * 255\<^sup>2 \<le> 65025"
    using sq_le_255 [OF a] by simp_all
  then have "sqrt (0.8 * x\<^sup>2 + 0.2 * 0\<^sup>2) \<le> sqrt 65025"
            "sqrt (0.8 * x\<^sup>2 + 0.2 * 255\<^sup>2) \<le> sqrt 65025"
    by (simp_all only: real_sqrt_le_iff)
  then show ?thesis by (simp add: blend2_def s)
qed

lemma blend2_dark_lt: "0 \<le> x \<Longrightarrow> x \<le> 255 \<Longrightarrow> blend2 x 0 < 255"
proof -
  assume a: "0 \<le> x" "x \<le> 255"
  have s: "sqrt 65025 = 255" using real_sqrt_abs [of 255] by simp
  have "0.8 * x\<^sup>2 + 0.2 * 0\<^sup>2 < 65025"
    using sq_le_255 [OF a] by simp
  then have "sqrt (0.8 * x\<^sup>2 + 0.2 * 0\<^sup>2) < sqrt 65025"
    by (simp only: real_sqrt_less_iff)
  then show ?thesis by (simp add: blend2_def s)
qed

lemma blend2_dark_pos: "0 < x \<Longrightarrow> 0 < blend2 x 0"
  by (simp add: blend2_def)

lemma blend2_light_pos: "0 < blend2 x 255"
proof -
  have "0 < 0.8 * x\<^sup>2 + 0.2 * 255\<^sup>2"
    by (rule add_nonneg_pos) simp_all
  then show ?thesis by (simp only: blend2_def real_sqrt_gt_0_iff)
qed

lemma blend2_light_lt: "0 \<le> x \<Longrightarrow> x < 255 \<Longrightarrow> blend2 x 255 < 255"
proof -
  assume a: "0 \<le> x" "x < 255"
  have s: "sqrt 65025 = 255" using real_sqrt_abs [of 255] by simp
  have "x\<^sup>2 < 255\<^sup>2" using a by (intro power_strict_mono) simp_all
  then have "0.8 * x\<^sup>2 + 0.2 * 255\<^sup>2 < 65025" by simp
  then have "sqrt (0.8 * x\<^sup>2 + 0.2 * 255\<^sup>2) < sqrt 65025"
    by (simp only: real_sqrt_less_iff)
  then show ?thesis by (simp add: blend2_def s)
qed

subsection \<open>The contrast search above the largest ratio\<close>

lemma chan_okE: "chan_ok v \<Longrightarrow> \<exists>x. v = Num x \<and> 0 \<le> x \<and> x \<le> 255"
  by (cases v) simp_all

lemma in_gamut_luminance:
  assumes "in_gamut c"
  shows "\<exists>l. luminance_of c = Num l \<and> 0 \<le> l \<and> l \<le> 1"
proof -
  from assms obtain x y z where c: "r c = Num x" "g c = Num y" "b c = Num z"
    and bnd: "0 \<le> x" "x \<le> 255" "0 \<le> y" "y \<le> 255" "0 \<le> z" "z \<le> 255"
    unfolding in_gamut_def by (blast dest: chan_okE)
  show ?thesis
    using luminance_of_Num [OF c bnd(2,4,6)] lum3_bounds [OF bnd] by simp
qed

lemma in_gamut_ratio:
  assumes "in_gamut c" "in_gamut d"
  shows "\<exists>q. ratio_of (luminance_of c) (luminance_of d) = Num q \<and> 1 \<le> q \<and> q \<le> 21"
proof -
  from in_gamut_luminance [OF assms(1)] obtain l0 where
    l0: "luminance_of c = Num l0" "0 \<le> l0" "l0 \<le> 1" by blast
  from in_gamut_luminance [OF assms(2)] obtain l1 where
    l1: "luminance_of d = Num l1" "0 \<le> l1" "l1 \<le> 1" by blast
  show ?thesis
    using ratio_of_le_21 [OF l0(2,3) l1(2,3)] by (simp add: l0 l1)
qed

lemma js_lt_trans_Num: "q \<le> 21 \<Longrightarrow> js_lt (Num 21) cmin \<Longrightarrow> js_lt (Num q) cmin"
  by (cases cmin) simp_all

lemma shade_direction_shape:
  assumes "memo_ok this" "memo_ok target"
  shows "\<exists>sd this1. shade_direction this target cmin =
            Inr (sd, this1, target\<lparr>rl := Some (luminance_of target)\<rparr>) \<and>
          (sd = Num 1 \<or> sd = Num (- 1)) \<and> memo_ok this1 \<and>
          r this1 = r this \<and> g this1 = g this \<and> b this1 = b this"
  using assms
  by (simp add: shade_direction_eq memo_ok_rl memo_ok_def)

lemma blend_step_mid:
  assumes "in_gamut c" "\<not> isBlack c" "\<not> isWhite c" "sd = Num 1 \<or> sd = Num (- 1)"
  shows "\<exists>c1. shadeBlend c (js_mul (Num 0.2) sd) None False = Inr (Some c1) \<and>
          memo_ok c1 \<and> in_gamut c1 \<and> \<not> isBlack c1 \<and> \<not> isWhite c1"
proof -
  from assms(1) obtain x y z where c: "r c = Num x" "g c = Num y" "b c = Num z"
    and bnd: "0 \<le> x" "x \<le> 255" "0 \<le> y" "y \<le> 255" "0 \<le> z" "z \<le> 255"
    unfolding in_gamut_def by (blast dest: chan_okE)
  from assms(2) c have nb: "x < 255 \<or> y < 255 \<or> z < 255"
    using bnd by (auto simp add: isBlack_iff)
  from assms(3) c have nw: "0 < x \<or> 0 < y \<or> 0 < z"
    using bnd by (auto simp add: isWhite_iff)
  from assms(4) show ?thesis
  proof
    assume sd: "sd = Num 1"
    from shadeBlend_lighten [OF c bnd] obtain fa where
      e: "shadeBlend c (js_mul (Num 0.2) (Num 1)) None False =
            Inr (Some \<lparr>r = Num (blend2 x 255), g = Num (blend2 y 255),
                        b = Num (blend2 z 255), a = fa, rl = None, cb = None\<rparr>)"
      by blast
    have lt: "blend2 x 255 < 255 \<or> blend2 y 255 < 255 \<or> blend2 z 255 < 255"
      using nb bnd blend2_light_lt by blast
    have pos: "0 < blend2 x 255" by (rule blend2_light_pos)
    show ?thesis
      unfolding sd e
      using lt pos blend2_le [OF bnd(1,2)] blend2_le [OF bnd(3,4)] blend2_le [OF bnd(5,6)]
      by (auto simp add: memo_ok_fresh in_gamut_def blend2_nonneg isBlack_iff isWhite_iff)
  next
    assume sd: "sd = Num (- 1)"
    from shadeBlend_darken [OF c bnd] obtain fa where
      e: "shadeBlend c (js_mul (Num 0.2) (Num (- 1))) None False =
            Inr (Some \<lparr>r = Num (blend2 x 0), g = Num (blend2 y 0),
                        b = Num (blend2 z 0), a = fa, rl = None, cb = None\<rparr>)"
      by blast
    have pos: "0 < blend2 x 0 \<or> 0 < blend2 y 0 \<or> 0 < blend2 z 0"
      using nw blend2_dark_pos by blast
    have lt: "blend2 x 0 < 255" using bnd by (simp add: blend2_dark_lt)
    show ?thesis
      unfolding sd e
      using lt pos blend2_le [OF bnd(1,2)] blend2_le [OF bnd(3,4)] blend2_le [OF bnd(5,6)]
      by (auto simp add: memo_ok_fresh in_gamut_def blend2_nonneg isBlack_iff isWhite_iff)
  qed
qed

lemma contrast_step_mid:
  assumes "memo_ok this" "in_gamut this" "memo_ok target" "in_gamut target"
    "\<not> isBlack target" "\<not> isWhite target"
  shows "\<exists>this1 target1. contrast_step this target cmin = Inr (this1, target1, False) \<and>
          memo_ok this1 \<and> in_gamut this1 \<and> memo_ok target1 \<and> in_gamut target1 \<and>
          \<not> isBlack target1 \<and> \<not> isWhite target1"
proof -
  from shade_direction_shape [OF assms(1,3)] obtain sd this1 where
    d: "shade_direction this target cmin =
          Inr (sd, this1, target\<lparr>rl := Some (luminance_of target)\<rparr>)"
    and sd: "sd = Num 1 \<or> sd = Num (- 1)"
    and t1: "memo_ok this1" "r this1 = r this" "g this1 = g this" "b this1 = b this"
    by blast
  let ?t = "target\<lparr>rl := Some (luminance_of target)\<rparr>"
  have g: "in_gamut ?t" "\<not> isBlack ?t" "\<not> isWhite ?t"
    using assms(4-6) by (simp_all add: in_gamut_def isBlack_iff isWhite_iff)
  from blend_step_mid [OF g sd] obtain c1 where
    s: "shadeBlend ?t (js_mul (Num 0.2) sd) None False = Inr (Some c1)"
    and c1: "memo_ok c1" "in_gamut c1" "\<not> isBlack c1" "\<not> isWhite c1"
    by blast
  have "contrast_step this target cmin = Inr (this1, c1, False)"
    using c1 s by (simp add: contrast_step_def d)
  moreover have "in_gamut this1" using assms(2) t1 by (simp add: in_gamut_def)
  ultimately show ?thesis using t1 c1 by blast
qed

lemma contrast_loop_never:
  assumes "contrast_loop this0 target0 cmin0 mr0 = Some y0"
  shows "\<not> search_inv this0 target0 cmin0 mr0"
proof (rule contrast_loop.raw_induct
    [where P = "\<lambda>this target cmin mr y. \<not> search_inv this target cmin mr", OF _ assms])
  fix loop :: "webcolor \<Rightarrow> webcolor \<Rightarrow> jsnum \<Rightarrow> bool \<Rightarrow> (error + webcolor) option"
    and this target cmin mr and y :: "error + webcolor"
  assume IH: "\<And>this target cmin mr y.
    loop this target cmin mr = Some y \<Longrightarrow> \<not> search_inv this target cmin mr"
  assume body: "(case contrastRatio_of this target of
      (c, this1, target1) \<Rightarrow>
        if js_lt c cmin \<and> \<not> mr
        then case contrast_step this1 target1 cmin of
               Inl e \<Rightarrow> Some (Inl e)
             | Inr (this2, target2, mr) \<Rightarrow> loop this2 target2 cmin mr
        else Some (Inr target1)) = Some y"
  show "\<not> search_inv this target cmin mr"
  proof
    assume "search_inv this target cmin mr"
    then have inv: "memo_ok this" "in_gamut this" "memo_ok target" "in_gamut target"
      "\<not> isBlack target" "\<not> isWhite target" "js_lt (Num 21) cmin" "\<not> mr"
      by (simp_all add: search_inv_def)
    let ?this1 = "this\<lparr>rl := Some (luminance_of this)\<rparr>"
    let ?target1 = "target\<lparr>rl := Some (luminance_of target)\<rparr>"
    from in_gamut_ratio [OF inv(2,4)] obtain q where
      q: "ratio_of (luminance_of this) (luminance_of target) = Num q" "q \<le> 21" by blast
    have lt: "js_lt (Num q) cmin" using q(2) inv(7) by (rule js_lt_trans_Num)
    have cr: "contrastRatio_of this target = (Num q, ?this1, ?target1)"
      using inv by (simp add: contrastRatio_of_eq q)
    have i1: "memo_ok ?this1" "in_gamut ?this1" "memo_ok ?target1" "in_gamut ?target1"
      "\<not> isBlack ?target1" "\<not> isWhite ?target1"
      using inv by (simp_all add: memo_ok_rl in_gamut_def isBlack_iff isWhite_iff)
    from contrast_step_mid [OF i1] obtain this2 target2 where
      st: "contrast_step ?this1 ?target1 cmin = Inr (this2, target2, False)"
      and i2: "memo_ok this2" "in_gamut this2" "memo_ok target2" "in_gamut target2"
        "\<not> isBlack target2" "\<not> isWhite target2"
      by blast
    from body have run: "loop this2 target2 cmin False = Some y"
      using inv lt by (simp add: cr st)
    have "search_inv this2 target2 cmin False"
      using i2 inv(7) by (simp add: search_inv_def)
    with IH [OF run] show False by simp
  qed
qed

lemma contrast_loop_diverges:
  assumes "search_inv this target cmin False"
  shows "contrast_loop this target cmin False = None"
proof (cases "contrast_loop this target cmin False")
  case None
  then show ?thesis .
next
  case (Some y)
  from contrast_loop_never [OF Some] assms show ?thesis by simp
qed

subsection \<open>The direction of a step\<close>

lemma shadeBlend_of_rl [simp]: "shadeBlend_of (c\<lparr>rl := v\<rparr>) p c1 l = shadeBlend_of c p c1 l"
  by (simp add: shadeBlend_of_def Let_def)

lemma shade_20_Some:
  "sd = Num 1 \<or> sd = Num (- 1) \<Longrightarrow>
   \<exists>c1. shadeBlend_of c (js_mul (Num 0.2) sd) None False = Some c1 \<and> memo_ok c1"
  by (auto simp add: shadeBlend_of_def js_gt_def Let_def)

lemma next_candidate_eq:
  assumes "memo_ok this" "memo_ok target"
  shows "next_candidate this target cmin =
     (if js_eq (luminance_of target) (luminance_of this)
        then (if js_lt (brightness_of this) (Num 128) then lighten target else darken target)
      else if js_lt (luminance_of target) (luminance_of this)
        then (if js_gt (ratio_of (luminance_of this) (Num 0)) cmin
              then darken target else lighten target)
      else (if js_gt (ratio_of (luminance_of this) (Num 1)) cmin
            then lighten target else darken target))"
proof -
  have l: "\<exists>c1. lighten target = Some c1" and d: "\<exists>c1. darken target = Some c1"
    using shade_20_Some [of "Num 1" target] shade_20_Some [of "Num (- 1)" target]
    by (auto simp add: lighten_def darken_def)
  from l d show ?thesis
    using assms
    by (auto simp add: next_candidate_def contrast_step_def shade_direction_eq shadeBlend_def
        lighten_def darken_def)
qed

lemma lum3_gray_low: "0 \<le> x \<Longrightarrow> x \<le> 10 \<Longrightarrow> lum3 x x x = x / 3294.6"
  by (simp add: lum3_def lin_def)

lemma luminance_10:
  "luminance_of (webcolor_of_obj (Some (Num 10)) (Some (Num 10)) (Some (Num 10)) None) =
     Num (10 / 3294.6)"
  using luminance_of_Num [of _ 10 10 10] lum3_gray_low [of 10]
  by (simp add: webcolor_of_obj_def prototype_def)

lemma luminance_5:
  "luminance_of (webcolor_of_obj (Some (Num 5)) (Some (Num 5)) (Some (Num 5)) None) =
     Num (5 / 3294.6)"
  using luminance_of_Num [of _ 5 5 5] lum3_gray_low [of 5]
  by (simp add: webcolor_of_obj_def prototype_def)

lemma lighten_neq_darken:
  assumes "r c = Num x" "g c = Num y" "b c = Num z"
    and "0 \<le> x" "x \<le> 255" "0 \<le> y" "y \<le> 255" "0 \<le> z" "z \<le> 255"
  shows "lighten c \<noteq> darken c"
proof -
  from shadeBlend_lighten [OF assms] shadeBlend_darken [OF assms]
  obtain fa fb where
    "lighten c = Some \<lparr>r = Num (blend2 x 255), g = Num (blend2 y 255),
       b = Num (blend2 z 255), a = fa, rl = None, cb = None\<rparr>"
    "darken c = Some \<lparr>r = Num (blend2 x 0), g = Num (blend2 y 0),
       b = Num (blend2 z 0), a = fb, rl = None, cb = None\<rparr>"
    by (auto simp add: shadeBlend_def lighten_def darken_def)
  then show ?thesis by (simp add: blend2_def)
qed

text \<open>
  Claim C2, as the code has it. In a turn of the loop with a target, with \<open>tl\<close> the
  luminance of the candidate and \<open>l\<close> that of the base: when \<open>tl < l\<close> the step
  darkens exactly when the contrast ratio of the base against pure black exceeds
  \<open>cmin\<close>, and lightens otherwise; when \<open>tl > l\<close> (or the two do not compare) it lightens
  exactly when the ratio of the base against pure white exceeds \<open>cmin\<close>, and darkens
  otherwise; when \<open>tl = l\<close> it lightens exactly when the base \<^verbatim>\<open>isDark()\<close>.
\<close>

theorem shade_direction_policy:
  assumes "memo_ok this" and "memo_ok target"
    and "map_sum id fst (contrastRatio this (InStr ''#000000'')) = Inr qb"
    and "map_sum id fst (contrastRatio this (InStr ''#ffffff'')) = Inr qw"
  shows "next_candidate this target cmin =
     (if js_eq (fst (getLuminance target)) (fst (getLuminance this))
        then (if fst (isDark this) then lighten target else darken target)
      else if js_lt (fst (getLuminance target)) (fst (getLuminance this))
        then (if js_gt qb cmin then darken target else lighten target)
      else (if js_gt qw cmin then lighten target else darken target))"
proof -
  have qb: "qb = ratio_of (luminance_of this) (Num 0)"
    using assms(3) by (simp add: contrastRatio_black [OF assms(1)])
  have qw: "qw = ratio_of (luminance_of this) (Num 1)"
    using assms(4) by (simp add: contrastRatio_white [OF assms(1)])
  have dk: "fst (isDark this) = js_lt (brightness_of this) (Num 128)"
    by (simp add: isDark_fst getBrightness_memo [OF assms(1)])
  show ?thesis
    unfolding qb qw dk getLuminance_memo [OF assms(1)] getLuminance_memo [OF assms(2)]
    by (rule next_candidate_eq [OF assms(1,2)])
qed

theorem shade_direction_policy_witness:
  "memo_ok (webcolor_of_obj (Some (Num 10)) (Some (Num 10)) (Some (Num 10)) None) \<and>
   memo_ok (webcolor_of_obj (Some (Num 5)) (Some (Num 5)) (Some (Num 5)) None) \<and>
   map_sum id fst (contrastRatio
        (webcolor_of_obj (Some (Num 10)) (Some (Num 10)) (Some (Num 10)) None)
        (InStr ''#000000'')) = Inr (Num (3494.6 / 3294.6)) \<and>
   map_sum id fst (contrastRatio
        (webcolor_of_obj (Some (Num 10)) (Some (Num 10)) (Some (Num 10)) None)
        (InStr ''#ffffff'')) = Inr (Num (1.05 / (10 / 3294.6 + 0.05))) \<and>
   next_candidate (webcolor_of_obj (Some (Num 10)) (Some (Num 10)) (Some (Num 10)) None)
     (webcolor_of_obj (Some (Num 5)) (Some (Num 5)) (Some (Num 5)) None) (Num 1.01) =
     darken (webcolor_of_obj (Some (Num 5)) (Some (Num 5)) (Some (Num 5)) None)"
proof -
  let ?T = "webcolor_of_obj (Some (Num 10)) (Some (Num 10)) (Some (Num 10)) None"
  let ?B = "webcolor_of_obj (Some (Num 5)) (Some (Num 5)) (Some (Num 5)) None"
  have m: "memo_ok ?T" "memo_ok ?B" by simp_all
  have b: "map_sum id fst (contrastRatio ?T (InStr ''#000000'')) = Inr (Num (3494.6 / 3294.6))"
    by (simp add: contrastRatio_black [OF m(1)] luminance_10 ratio_of_Num)
  have w: "map_sum id fst (contrastRatio ?T (InStr ''#ffffff'')) =
             Inr (Num (1.05 / (10 / 3294.6 + 0.05)))"
    by (simp add: contrastRatio_white [OF m(1)] luminance_10 ratio_of_Num)
  have lt: "js_lt (fst (getLuminance ?B)) (fst (getLuminance ?T))"
    by (simp add: getLuminance_memo [OF m(1)] getLuminance_memo [OF m(2)]
        luminance_10 luminance_5)
  have ne: "\<not> js_eq (fst (getLuminance ?B)) (fst (getLuminance ?T))"
    by (simp add: getLuminance_memo [OF m(1)] getLuminance_memo [OF m(2)]
        luminance_10 luminance_5 js_eq_def)
  have gt: "js_gt (Num (3494.6 / 3294.6)) (Num 1.01)"
    by (simp add: js_gt_def)
  from shade_direction_policy [OF m b w, of "Num 1.01"] lt ne gt
  have "next_candidate ?T ?B (Num 1.01) = darken ?B" by simp
  with m b w show ?thesis by blast
qed

text \<open>
  The claim as the specification words it has the two cases the other way round
  (darken unless the ratio against black exceeds \<open>cmin\<close>). For the base
  \<open>rgb(10,10,10)\<close>, the candidate \<open>rgb(5,5,5)\<close> and \<open>cmin = 4.5\<close> the loop runs, the
  candidate is the darker one, the ratio of the base against black is about 1.06 and
  does not exceed 4.5, and the step lightens.
\<close>

theorem shade_direction_counterexample:
  "js_lt (fst (contrastRatio_of
        (webcolor_of_obj (Some (Num 10)) (Some (Num 10)) (Some (Num 10)) None)
        (webcolor_of_obj (Some (Num 5)) (Some (Num 5)) (Some (Num 5)) None))) (Num 4.5) \<and>
   js_lt (fst (getLuminance (webcolor_of_obj (Some (Num 5)) (Some (Num 5)) (Some (Num 5)) None)))
     (fst (getLuminance (webcolor_of_obj (Some (Num 10)) (Some (Num 10)) (Some (Num 10)) None))) \<and>
   map_sum id fst (contrastRatio
        (webcolor_of_obj (Some (Num 10)) (Some (Num 10)) (Some (Num 10)) None)
        (InStr ''#000000'')) = Inr (Num (3494.6 / 3294.6)) \<and>
   \<not> js_gt (Num (3494.6 / 3294.6)) (Num 4.5) \<and>
   next_candidate (webcolor_of_obj (Some (Num 10)) (Some (Num 10)) (Some (Num 10)) None)
     (webcolor_of_obj (Some (Num 5)) (Some (Num 5)) (Some (Num 5)) None) (Num 4.5) =
     lighten (webcolor_of_obj (Some (Num 5)) (Some (Num 5)) (Some (Num 5)) None) \<and>
   lighten (webcolor_of_obj (Some (Num 5)) (Some (Num 5)) (Some (Num 5)) None) \<noteq>
     darken (webcolor_of_obj (Some (Num 5)) (Some (Num 5)) (Some (Num 5)) None)"
proof -
  let ?T = "webcolor_of_obj (Some (Num 10)) (Some (Num 10)) (Some (Num 10)) None"
  let ?B = "webcolor_of_obj (Some (Num 5)) (Some (Num 5)) (Some (Num 5)) None"
  have m: "memo_ok ?T" "memo_ok ?B" by simp_all
  have 1: "js_lt (fst (contrastRatio_of ?T ?B)) (Num 4.5)"
    by (simp add: contrastRatio_of_eq [OF m] luminance_10 luminance_5 ratio_of_Num)
  have 2: "js_lt (fst (getLuminance ?B)) (fst (getLuminance ?T))"
    by (simp add: getLuminance_memo [OF m(1)] getLuminance_memo [OF m(2)]
        luminance_10 luminance_5)
  have 3: "map_sum id fst (contrastRatio ?T (InStr ''#000000'')) = Inr (Num (3494.6 / 3294.6))"
    by (simp add: contrastRatio_black [OF m(1)] luminance_10 ratio_of_Num)
  have 4: "\<not> js_gt (Num (3494.6 / 3294.6)) (Num 4.5)"
    by (simp add: js_gt_def)
  have 5: "next_candidate ?T ?B (Num 4.5) = lighten ?B"
    by (simp add: next_candidate_eq [OF m] luminance_10 luminance_5 ratio_of_Num
        js_eq_def js_gt_def)
  have 6: "lighten ?B \<noteq> darken ?B"
    by (rule lighten_neq_darken [of _ 5 5 5]) (simp_all add: webcolor_of_obj_def)
  from 1 2 3 4 5 6 show ?thesis by blast
qed

subsection \<open>Termination of the contrast search\<close>

lemma parse_gray:
  "stringInputToObject ''#808080'' =
     Some \<lparr>r = Num 128, g = Num 128, b = Num 128, a = Num 1\<rparr>"
proof -
  have n: "toLowerCase (trim ''#808080'') = ''#808080''"
    by (simp add: norm_defs)
  have p: "js_parseInt ''808080'' 16 = Num 8421504"
    by (simp add: parse_int_defs)
  have h: "hex_branch ''#808080'' =
             Some \<lparr>r = Num 128, g = Num 128, b = Num 128, a = Num 1\<rparr>"
    by (simp add: hex_branch_defs p)
  show ?thesis
    by (simp add: stringInputToObject_def n js_char_at_def h)
qed

lemma webcolor_gray:
  "webcolor (InStr ''#808080'') =
     Inr \<lparr>r = Num 128, g = Num 128, b = Num 128, a = Num 1, rl = None, cb = None\<rparr>"
  by (simp add: webcolor_def parse_gray webcolor_of_obj_def prototype_def)

text \<open>
  Claim C3. \<^verbatim>\<open>contrastingColor\<close> is meant to end in every case, with a result whose
  contrast ratio against the base is at least \<open>cmin\<close> or that is pure black or pure
  white. The loop does not end for the base \<^verbatim>\<open>#808080\<close>, the target \<^verbatim>\<open>#808080\<close> and
  \<open>cmin = 22\<close>: no ratio of two colours in range exceeds 21, and a shade of 20 percent
  of a colour that is neither black nor white is neither black nor white again, so
  neither exit of the loop is ever taken.
\<close>

theorem contrastingColor_runs_forever:
  "webcolor (InStr ''#808080'') =
     Inr \<lparr>r = Num 128, g = Num 128, b = Num 128, a = Num 1, rl = None, cb = None\<rparr> \<and>
   contrastingColor
     \<lparr>r = Num 128, g = Num 128, b = Num 128, a = Num 1, rl = None, cb = None\<rparr>
     (Some (InStr ''#808080'')) (Num 22) = None"
proof -
  let ?G = "\<lparr>r = Num 128, g = Num 128, b = Num 128, a = Num 1, rl = None, cb = None\<rparr>"
  have "search_inv ?G ?G (Num 22) False"
    by (simp add: search_inv_def memo_ok_fresh in_gamut_def isBlack_iff isWhite_iff)
  then have "contrast_loop ?G ?G (Num 22) False = None"
    by (rule contrast_loop_diverges)
  then show ?thesis
    by (simp add: contrastingColor_def webcolor_gray)
qed

text \<open>
  When the loop does end, from a state with intact memo fields in which \<^verbatim>\<open>maxReached\<close>
  is set only for a candidate at an end of the range, it ends as intended: the ratio of
  the base against the result is not below \<open>cmin\<close>, or the result is at an end of the
  range.
\<close>

lemma luminance_of_cong:
  "r c = r d \<Longrightarrow> g c = g d \<Longrightarrow> b c = b d \<Longrightarrow> luminance_of c = luminance_of d"
  by (simp add: luminance_of_def getLuminance_def Let_def)

lemma contrast_step_frame:
  assumes "memo_ok this" "memo_ok target"
    and "contrast_step this target cmin = Inr (this2, target2, mr2)"
  shows "memo_ok this2 \<and> luminance_of this2 = luminance_of this \<and> memo_ok target2 \<and>
         mr2 = (isBlack target2 \<or> isWhite target2)"
proof -
  from shade_direction_shape [OF assms(1,2)] obtain sd this1 where
    d: "shade_direction this target cmin =
          Inr (sd, this1, target\<lparr>rl := Some (luminance_of target)\<rparr>)"
    and sd: "sd = Num 1 \<or> sd = Num (- 1)"
    and t1: "memo_ok this1" "r this1 = r this" "g this1 = g this" "b this1 = b this"
    by blast
  from shade_20_Some [OF sd] obtain c1 where
    c1: "shadeBlend_of target (js_mul (Num 0.2) sd) None False = Some c1" "memo_ok c1"
    by blast
  from assms(3) c1 have "this2 = this1" "target2 = c1" "mr2 = (isBlack c1 \<or> isWhite c1)"
    by (auto simp add: contrast_step_def d shadeBlend_def)
  with t1 c1(2) luminance_of_cong [OF t1(2-4)] show ?thesis by simp
qed

lemma contrast_loop_result:
  assumes "contrast_loop this0 target0 cmin0 mr0 = Some y0"
  shows "memo_ok this0 \<longrightarrow> memo_ok target0 \<longrightarrow> (mr0 \<longrightarrow> isBlack target0 \<or> isWhite target0) \<longrightarrow>
    (\<exists>res. y0 = Inr res \<and>
       (\<not> js_lt (ratio_of (luminance_of this0) (luminance_of res)) cmin0 \<or>
        isBlack res \<or> isWhite res))"
proof (rule contrast_loop.raw_induct
    [where P = "\<lambda>this target cmin mr y.
       memo_ok this \<longrightarrow> memo_ok target \<longrightarrow> (mr \<longrightarrow> isBlack target \<or> isWhite target) \<longrightarrow>
       (\<exists>res. y = Inr res \<and>
          (\<not> js_lt (ratio_of (luminance_of this) (luminance_of res)) cmin \<or>
           isBlack res \<or> isWhite res))", OF _ assms])
  fix loop :: "webcolor \<Rightarrow> webcolor \<Rightarrow> jsnum \<Rightarrow> bool \<Rightarrow> (error + webcolor) option"
    and this target cmin mr and y :: "error + webcolor"
  assume IH: "\<And>this target cmin mr y.
    loop this target cmin mr = Some y \<Longrightarrow>
    memo_ok this \<longrightarrow> memo_ok target \<longrightarrow> (mr \<longrightarrow> isBlack target \<or> isWhite target) \<longrightarrow>
       (\<exists>res. y = Inr res \<and>
          (\<not> js_lt (ratio_of (luminance_of this) (luminance_of res)) cmin \<or>
           isBlack res \<or> isWhite res))"
  assume body: "(case contrastRatio_of this target of
      (c, this1, target1) \<Rightarrow>
        if js_lt c cmin \<and> \<not> mr
        then case contrast_step this1 target1 cmin of
               Inl e \<Rightarrow> Some (Inl e)
             | Inr (this2, target2, mr) \<Rightarrow> loop this2 target2 cmin mr
        else Some (Inr target1)) = Some y"
  show "memo_ok this \<longrightarrow> memo_ok target \<longrightarrow> (mr \<longrightarrow> isBlack target \<or> isWhite target) \<longrightarrow>
       (\<exists>res. y = Inr res \<and>
          (\<not> js_lt (ratio_of (luminance_of this) (luminance_of res)) cmin \<or>
           isBlack res \<or> isWhite res))"
  proof (intro impI)
    assume m: "memo_ok this" "memo_ok target" and mr: "mr \<longrightarrow> isBlack target \<or> isWhite target"
    let ?this1 = "this\<lparr>rl := Some (luminance_of this)\<rparr>"
    let ?target1 = "target\<lparr>rl := Some (luminance_of target)\<rparr>"
    let ?q = "ratio_of (luminance_of this) (luminance_of target)"
    have cr: "contrastRatio_of this target = (?q, ?this1, ?target1)"
      using m by (simp add: contrastRatio_of_eq)
    have m1: "memo_ok ?this1" "memo_ok ?target1" using m by (simp_all add: memo_ok_rl)
    show "\<exists>res. y = Inr res \<and>
          (\<not> js_lt (ratio_of (luminance_of this) (luminance_of res)) cmin \<or>
           isBlack res \<or> isWhite res)"
    proof (cases "js_lt ?q cmin \<and> \<not> mr")
      case False
      with body have "y = Inr ?target1" by (simp add: cr)
      with False mr show ?thesis by (auto simp add: isBlack_iff isWhite_iff)
    next
      case True
      show ?thesis
      proof (cases "contrast_step ?this1 ?target1 cmin")
        case (Inl e)
        from shade_direction_shape [OF m1] obtain sd this2 where
          d: "shade_direction ?this1 ?target1 cmin =
                Inr (sd, this2, ?target1\<lparr>rl := Some (luminance_of ?target1)\<rparr>)"
          and sd: "sd = Num 1 \<or> sd = Num (- 1)" by blast
        from shade_20_Some [OF sd] obtain c1 where
          "shadeBlend_of ?target1 (js_mul (Num 0.2) sd) None False = Some c1" by blast
        with Inl d show ?thesis by (simp add: contrast_step_def shadeBlend_def)
      next
        case (Inr t)
        obtain this2 target2 mr2 where t: "t = (this2, target2, mr2)" by (cases t) auto
        from contrast_step_frame [OF m1 Inr [unfolded t]]
        have f: "memo_ok this2" "luminance_of this2 = luminance_of this" "memo_ok target2"
          "mr2 = (isBlack target2 \<or> isWhite target2)" by simp_all
        from body True have "loop this2 target2 cmin mr2 = Some y"
          by (simp add: cr Inr t)
        from IH [OF this] f show ?thesis by simp
      qed
    qed
  qed
qed

subsection \<open>Symmetry of the contrast ratio\<close>

lemma memo_ok_a [simp]: "memo_ok (c\<lparr>a := v\<rparr>) = memo_ok c"
  by (simp add: memo_ok_def brightness_of_def getBrightness_def Let_def)

text \<open>
  Claim C7, restricted to ratios that are numbers. \<^verbatim>\<open>contrastRatio\<close> is
  \<open>(max(L0,L1) + 0.05) / (min(L0,L1) + 0.05)\<close> over the two relative luminances and
  does not depend on either alpha. \<^verbatim>\<open>contrastRatio(a,b) == contrastRatio(b,a)\<close>
  holds whenever the ratio is not \<open>NaN\<close>, and \<^verbatim>\<open>contrastRatio(a,a) == 1\<close> whenever
  the luminance of \<open>a\<close> is finite and not \<open>-0.05\<close>; both hold for all colours whose
  three channels lie in \<open>[0, 255]\<close>.
\<close>

theorem contrastRatio_formula:
  assumes "memo_ok c" and "memo_ok d"
  shows "fst (contrastRatio_of c d) =
           js_div (js_add (js_max (fst (getLuminance c)) (fst (getLuminance d))) (Num 0.05))
             (js_add (js_min (fst (getLuminance c)) (fst (getLuminance d))) (Num 0.05)) \<and>
         fst (contrastRatio_of (c\<lparr>a := x\<rparr>) (d\<lparr>a := y\<rparr>)) = fst (contrastRatio_of c d) \<and>
         (fst (contrastRatio_of c d) \<noteq> NaN \<longrightarrow>
            js_eq (fst (contrastRatio_of c d)) (fst (contrastRatio_of d c))) \<and>
         (\<forall>l. fst (getLuminance c) = Num l \<and> l \<noteq> - 0.05 \<longrightarrow>
            js_eq (fst (contrastRatio_of c c)) (Num 1)) \<and>
         (in_gamut c \<and> in_gamut d \<longrightarrow>
            js_eq (fst (contrastRatio_of c d)) (fst (contrastRatio_of d c)) \<and>
            js_eq (fst (contrastRatio_of c c)) (Num 1))"
proof -
  have 1: "fst (contrastRatio_of c d) =
           js_div (js_add (js_max (fst (getLuminance c)) (fst (getLuminance d))) (Num 0.05))
             (js_add (js_min (fst (getLuminance c)) (fst (getLuminance d))) (Num 0.05))"
    by (simp add: contrastRatio_of_def split_beta)
  have 2: "fst (contrastRatio_of (c\<lparr>a := x\<rparr>) (d\<lparr>a := y\<rparr>)) = fst (contrastRatio_of c d)"
    using assms by (simp add: contrastRatio_of_eq)
  have 3: "fst (contrastRatio_of c d) \<noteq> NaN \<longrightarrow>
            js_eq (fst (contrastRatio_of c d)) (fst (contrastRatio_of d c))"
    using assms by (simp add: contrastRatio_of_eq js_eq_def ratio_of_sym [of "luminance_of d"])
  have 4: "\<forall>l. fst (getLuminance c) = Num l \<and> l \<noteq> - 0.05 \<longrightarrow>
            js_eq (fst (contrastRatio_of c c)) (Num 1)"
    using assms(1)
    by (auto simp add: contrastRatio_of_eq getLuminance_memo js_eq_def ratio_of_refl)
  have 5: "in_gamut c \<and> in_gamut d \<longrightarrow>
            js_eq (fst (contrastRatio_of c d)) (fst (contrastRatio_of d c)) \<and>
            js_eq (fst (contrastRatio_of c c)) (Num 1)"
  proof
    assume n: "in_gamut c \<and> in_gamut d"
    from n in_gamut_luminance [of c] obtain l0 where
      l0: "luminance_of c = Num l0" "0 \<le> l0" by blast
    from n in_gamut_ratio [of c d] obtain q where
      q: "ratio_of (luminance_of c) (luminance_of d) = Num q" by blast
    have "js_eq (fst (contrastRatio_of c d)) (fst (contrastRatio_of d c))"
      using assms q by (simp add: contrastRatio_of_eq js_eq_def ratio_of_sym [of "luminance_of d"])
    moreover have "js_eq (fst (contrastRatio_of c c)) (Num 1)"
      using assms(1) l0 by (simp add: contrastRatio_of_eq js_eq_def ratio_of_refl)
    ultimately show "js_eq (fst (contrastRatio_of c d)) (fst (contrastRatio_of d c)) \<and>
            js_eq (fst (contrastRatio_of c c)) (Num 1)" by blast
  qed
  from 1 2 3 4 5 show ?thesis by blast
qed

theorem contrastRatio_formula_witness:
  "memo_ok \<lparr>r = Num 255, g = Num 255, b = Num 255, a = Num 1, rl = None, cb = None\<rparr> \<and>
   memo_ok \<lparr>r = Num 0, g = Num 0, b = Num 0, a = Num 1, rl = None, cb = None\<rparr> \<and>
   fst (contrastRatio_of
          \<lparr>r = Num 255, g = Num 255, b = Num 255, a = Num 1, rl = None, cb = None\<rparr>
          \<lparr>r = Num 0, g = Num 0, b = Num 0, a = Num 1, rl = None, cb = None\<rparr>) = Num 21 \<and>
   fst (getLuminance
          \<lparr>r = Num 255, g = Num 255, b = Num 255, a = Num 1, rl = None, cb = None\<rparr>) = Num 1 \<and>
   in_gamut \<lparr>r = Num 255, g = Num 255, b = Num 255, a = Num 1, rl = None, cb = None\<rparr> \<and>
   in_gamut \<lparr>r = Num 0, g = Num 0, b = Num 0, a = Num 1, rl = None, cb = None\<rparr> \<and>
   js_eq (fst (contrastRatio_of
          \<lparr>r = Num 255, g = Num 255, b = Num 255, a = Num 1, rl = None, cb = None\<rparr>
          \<lparr>r = Num 0, g = Num 0, b = Num 0, a = Num 1, rl = None, cb = None\<rparr>))
     (fst (contrastRatio_of
          \<lparr>r = Num 0, g = Num 0, b = Num 0, a = Num 1, rl = None, cb = None\<rparr>
          \<lparr>r = Num 255, g = Num 255, b = Num 255, a = Num 1, rl = None, cb = None\<rparr>)) \<and>
   js_eq (fst (contrastRatio_of
          \<lparr>r = Num 255, g = Num 255, b = Num 255, a = Num 1, rl = None, cb = None\<rparr>
          \<lparr>r = Num 255, g = Num 255, b = Num 255, a = Num 1, rl = None, cb = None\<rparr>))
     (Num 1)"
proof -
  let ?W = "\<lparr>r = Num 255, g = Num 255, b = Num 255, a = Num 1, rl = None, cb = None\<rparr>"
  let ?K = "\<lparr>r = Num 0, g = Num 0, b = Num 0, a = Num 1, rl = None, cb = None\<rparr>"
  have m: "memo_ok ?W" "memo_ok ?K" by (simp_all add: memo_ok_fresh)
  have lw: "luminance_of ?W = Num 1" using luminance_of_Num [of ?W 255 255 255]
    by (simp add: lum3_white)
  have lk: "luminance_of ?K = Num 0" using luminance_of_Num [of ?K 0 0 0]
    by (simp add: lum3_black)
  have q: "fst (contrastRatio_of ?W ?K) = Num 21"
    by (simp add: contrastRatio_of_eq [OF m] lw lk ratio_of_Num)
  have l: "fst (getLuminance ?W) = Num 1"
    by (simp add: getLuminance_memo [OF m(1)] lw)
  have n: "in_gamut ?W" "in_gamut ?K" by (simp_all add: in_gamut_def)
  from contrastRatio_formula [OF m, of "Num 1" "Num 1"] n
  have "js_eq (fst (contrastRatio_of ?W ?K)) (fst (contrastRatio_of ?K ?W))"
    and "js_eq (fst (contrastRatio_of ?W ?W)) (Num 1)"
    by blast+
  with m q l n show ?thesis by blast
qed

lemma paren_not_letter: "\<not> is_lower_letter CHR ''(''"
  by (simp add: is_lower_letter_def)

lemma parse_rgb_x:
  "stringInputToObject ''rgb(x,1,2)'' = Some \<lparr>r = NaN, g = Num 1, b = Num 2, a = Num 1\<rparr>"
proof -
  have n: "toLowerCase (trim ''rgb(x,1,2)'') = ''rgb(x,1,2)''"
    by (simp add: norm_defs)
  have m: "map_of names ''rgb(x,1,2)'' = None"
    by (rule map_of_names_None [of "CHR ''(''"]) (simp_all add: paren_not_letter)
  have s: "js_split CHR '','' ''rgb(x,1,2)'' = [''rgb(x'', ''1'', ''2)'']"
    by simp
  have f: "first_component ''rgb(x'' = ''x''"
    by (simp add: first_component_def js_char_at_def js_slice_def slice_index_def)
  have p: "js_parseInt ''x'' 0 = NaN" "js_parseInt ''1'' 0 = Num 1" "js_parseInt ''2)'' 0 = Num 2"
    by (simp_all add: parse_int_defs)
  have b: "rgb_branch ''rgb(x,1,2)'' = Some \<lparr>r = NaN, g = Num 1, b = Num 2, a = Num 1\<rparr>"
    by (simp add: rgb_branch_def s f p)
  show ?thesis
    by (simp add: stringInputToObject_def n m js_char_at_def b)
qed

lemma webcolor_rgb_x:
  "webcolor (InStr ''rgb(x,1,2)'') =
     Inr \<lparr>r = NaN, g = Num 1, b = Num 2, a = Num 1, rl = None, cb = None\<rparr>"
  by (simp add: webcolor_def parse_rgb_x webcolor_of_obj_def prototype_def)

text \<open>
  The claim as stated, for all colours, fails: the constructor accepts
  \<^verbatim>\<open>'rgb(x,1,2)'\<close> and returns a colour whose red channel is \<open>NaN\<close>. Its contrast
  ratio against itself is \<open>NaN\<close>, which \<^verbatim>\<open>==\<close> equates neither to 1 nor to itself.
\<close>

theorem contrastRatio_counterexample:
  "webcolor (InStr ''rgb(x,1,2)'') =
     Inr \<lparr>r = NaN, g = Num 1, b = Num 2, a = Num 1, rl = None, cb = None\<rparr> \<and>
   map_sum id fst
     (contrastRatio \<lparr>r = NaN, g = Num 1, b = Num 2, a = Num 1, rl = None, cb = None\<rparr>
        (InStr ''rgb(x,1,2)'')) = Inr NaN \<and>
   \<not> js_eq NaN (Num 1) \<and> \<not> js_eq NaN NaN"
  by (simp add: webcolor_rgb_x contrastRatio_def contrastRatio_of_def getLuminance_def
      linear_light_def js_le_def js_pow_def js_max_def js_eq_def Let_def)

text \<open>
  Nor do the equalities hold for all finite channels: for a red channel of \<open>10\<^sup>2\<^sup>0\<^sup>0\<close>
  the power in \<^verbatim>\<open>getLuminance\<close> is beyond the doubles, the luminance is infinite,
  and the ratio of the colour against itself is \<open>NaN\<close>.
\<close>

lemma linear_light_overflow: "linear_light (Num (10 ^ 200 / 255)) = PosInf"
proof -
  define u :: real where "u = (10 ^ 200 / 255 + 0.055) / 1.055"
  have u: "10 ^ 197 \<le> u" by (simp add: u_def)
  then have u1: "1 \<le> u" by simp
  have "u powr 2 \<le> u powr 2.4" using u1 by (intro powr_mono) simp_all
  moreover have "u powr 2 = u\<^sup>2" using u1 by (simp add: powr_numeral)
  moreover have "(10 ^ 197)\<^sup>2 \<le> u\<^sup>2" using u by (intro power_mono) simp_all
  moreover have "double_limit \<le> (10 ^ 197)\<^sup>2" by (simp add: double_limit_def)
  ultimately have "double_limit \<le> u powr 2.4" by linarith
  then have o: "js_overflow (u powr 2.4) = PosInf" by (simp add: js_overflow_def)
  have "js_pow (Num u) 2.4 = js_overflow (u powr 2.4)"
    using u1 by (simp add: js_pow_def)
  with o show ?thesis
    by (simp add: linear_light_def js_le_def u_def)
qed

lemma contrastRatio_overflow:
  "fst (contrastRatio_of
          \<lparr>r = Num (10 ^ 200), g = Num 0, b = Num 0, a = Num 1, rl = None, cb = None\<rparr>
          \<lparr>r = Num (10 ^ 200), g = Num 0, b = Num 0, a = Num 1, rl = None, cb = None\<rparr>) = NaN"
proof -
  have "linear_light (Num 0) = Num 0" by (simp add: linear_light_def js_le_def)
  then show ?thesis
    using linear_light_overflow
    by (simp add: contrastRatio_of_def getLuminance_def Let_def js_max_def js_min_def
        inf_of_sign_def)
qed

subsection \<open>Equality by canonical string\<close>

lemma toString_rgb_opaque:
  "js_eq (a c) (Num 1) \<Longrightarrow>
   toString c ''rgb'' =
     ''rgb('' @ num_to_string 10 (js_round (r c)) @ '','' @
     num_to_string 10 (js_round (g c)) @ '','' @
     num_to_string 10 (js_round (b c)) @ '')''"
  by (simp add: toString_def)

lemma toString_rgb_alpha:
  "\<not> js_eq (a c) (Num 1) \<Longrightarrow>
   toString c ''rgb'' =
     ''rgba('' @ num_to_string 10 (js_round (r c)) @ '','' @
     num_to_string 10 (js_round (g c)) @ '','' @
     num_to_string 10 (js_round (b c)) @ '','' @
     num_to_string 10 (js_div (js_round (js_mul (a c) (Num 1000))) (Num 1000)) @ '')''"
  by (simp add: toString_def)

lemma toString_boundary:
  "js_eq (a c) (Num 1) \<Longrightarrow> \<not> js_eq (a d) (Num 1) \<Longrightarrow> toString c ''rgb'' \<noteq> toString d ''rgb''"
  by (simp add: toString_rgb_opaque toString_rgb_alpha)

lemma nat_to_string_digit: "n < 10 \<Longrightarrow> nat_to_string 10 n = [digit_char n]"
  by (simp add: nat_to_string.simps)

lemma real_to_string_0: "real_to_string 10 0 = ''0''"
  by (simp add: real_to_string_def nat_to_string_digit digit_char_def)

lemma real_to_string_1: "real_to_string 10 1 = ''1''"
  by (simp add: real_to_string_def nat_to_string_digit digit_char_def)

text \<open>
  Claim C8, without the boundary at alpha 1. \<^verbatim>\<open>equals(other)\<close> holds exactly when
  the \<^verbatim>\<open>toString()\<close> outputs of the two colours in the default format are equal.
  Two colours whose \<open>r\<close>, \<open>g\<close>, \<open>b\<close> round to the same integers are equal when both
  alphas differ from 1 and round to the same three decimals, and when both alphas are
  exactly 1. A colour whose alpha is exactly 1 never equals one whose alpha is not,
  however close to 1 that is.
\<close>

theorem equals_by_string:
  "(webcolor i = Inr c \<longrightarrow>
      equals this i = Inr (toString this ''rgb'' = toString c ''rgb'')) \<and>
   (js_round (r this) = js_round (r c) \<and> js_round (g this) = js_round (g c) \<and>
    js_round (b this) = js_round (b c) \<and>
    \<not> js_eq (a this) (Num 1) \<and> \<not> js_eq (a c) (Num 1) \<and>
    js_div (js_round (js_mul (a this) (Num 1000))) (Num 1000) =
      js_div (js_round (js_mul (a c) (Num 1000))) (Num 1000) \<longrightarrow>
      equals this (InColor c) = Inr True) \<and>
   (js_round (r this) = js_round (r c) \<and> js_round (g this) = js_round (g c) \<and>
    js_round (b this) = js_round (b c) \<and> js_eq (a this) (Num 1) \<and> js_eq (a c) (Num 1) \<longrightarrow>
      equals this (InColor c) = Inr True) \<and>
   (js_eq (a this) (Num 1) \<and> \<not> js_eq (a c) (Num 1) \<longrightarrow>
      equals this (InColor c) = Inr False \<and> equals c (InColor this) = Inr False)"
proof -
  have 1: "webcolor i = Inr c \<longrightarrow>
      equals this i = Inr (toString this ''rgb'' = toString c ''rgb'')"
    by (simp add: equals_def)
  have 2: "js_round (r this) = js_round (r c) \<and> js_round (g this) = js_round (g c) \<and>
    js_round (b this) = js_round (b c) \<and>
    \<not> js_eq (a this) (Num 1) \<and> \<not> js_eq (a c) (Num 1) \<and>
    js_div (js_round (js_mul (a this) (Num 1000))) (Num 1000) =
      js_div (js_round (js_mul (a c) (Num 1000))) (Num 1000) \<longrightarrow>
      equals this (InColor c) = Inr True"
    by (simp add: equals_def webcolor_def toString_rgb_alpha)
  have 3: "js_round (r this) = js_round (r c) \<and> js_round (g this) = js_round (g c) \<and>
    js_round (b this) = js_round (b c) \<and> js_eq (a this) (Num 1) \<and> js_eq (a c) (Num 1) \<longrightarrow>
      equals this (InColor c) = Inr True"
    by (simp add: equals_def webcolor_def toString_rgb_opaque)
  have 4: "js_eq (a this) (Num 1) \<and> \<not> js_eq (a c) (Num 1) \<longrightarrow>
      equals this (InColor c) = Inr False \<and> equals c (InColor this) = Inr False"
    using toString_boundary [of this c]
    by (auto simp add: equals_def webcolor_def)
  from 1 2 3 4 show ?thesis by blast
qed

theorem equals_by_string_witness:
  "webcolor (InColor \<lparr>r = Num 0, g = Num 0, b = Num 0, a = Num 0.5002, rl = None, cb = None\<rparr>) =
     Inr \<lparr>r = Num 0, g = Num 0, b = Num 0, a = Num 0.5002, rl = None, cb = None\<rparr> \<and>
   js_div (js_round (js_mul (Num 0.5) (Num 1000))) (Num 1000) =
     js_div (js_round (js_mul (Num 0.5002) (Num 1000))) (Num 1000) \<and>
   equals \<lparr>r = Num 0, g = Num 0, b = Num 0, a = Num 0.5, rl = None, cb = None\<rparr>
     (InColor \<lparr>r = Num 0, g = Num 0, b = Num 0, a = Num 0.5002, rl = None, cb = None\<rparr>) =
     Inr True \<and>
   equals \<lparr>r = Num 0, g = Num 0, b = Num 0, a = Num 1, rl = None, cb = None\<rparr>
     (InColor \<lparr>r = Num 0.2, g = Num 0, b = Num 0, a = Num 1, rl = None, cb = None\<rparr>) =
     Inr True \<and>
   equals \<lparr>r = Num 0, g = Num 0, b = Num 0, a = Num 1, rl = None, cb = None\<rparr>
     (InColor \<lparr>r = Num 0, g = Num 0, b = Num 0, a = Num 0.5, rl = None, cb = None\<rparr>) =
     Inr False"
proof -
  let ?A = "\<lparr>r = Num 0, g = Num 0, b = Num 0, a = Num 0.5, rl = None, cb = None\<rparr>"
  let ?B = "\<lparr>r = Num 0, g = Num 0, b = Num 0, a = Num 0.5002, rl = None, cb = None\<rparr>"
  let ?C = "\<lparr>r = Num 0, g = Num 0, b = Num 0, a = Num 1, rl = None, cb = None\<rparr>"
  let ?D = "\<lparr>r = Num 0.2, g = Num 0, b = Num 0, a = Num 1, rl = None, cb = None\<rparr>"
  have w: "webcolor (InColor ?B) = Inr ?B" by (simp add: webcolor_def)
  have e: "js_div (js_round (js_mul (Num 0.5) (Num 1000))) (Num 1000) =
     js_div (js_round (js_mul (Num 0.5002) (Num 1000))) (Num 1000)"
    by simp
  have 1: "equals ?A (InColor ?B) = Inr True"
    using equals_by_string [of "InColor ?B" ?B ?A] e by (simp add: js_eq_def)
  have 2: "equals ?C (InColor ?D) = Inr True"
    using equals_by_string [of "InColor ?D" ?D ?C] by (simp add: js_eq_def)
  have 3: "equals ?C (InColor ?A) = Inr False"
    using equals_by_string [of "InColor ?A" ?A ?C] by (simp add: js_eq_def)
  from w e 1 2 3 show ?thesis by blast
qed

text \<open>
  The claim as stated fails across the boundary: \<open>rgba(0,0,0,1)\<close> with alpha exactly
  1 prints as \<^verbatim>\<open>rgb(0,0,0)\<close>, the same channels with alpha 0.9996 print as
  \<^verbatim>\<open>rgba(0,0,0,1)\<close>; the two alphas round to the same three decimals and the
  colours are not equal.
\<close>

theorem equals_counterexample:
  "js_div (js_round (js_mul (Num 1) (Num 1000))) (Num 1000) =
     js_div (js_round (js_mul (Num 0.9996) (Num 1000))) (Num 1000) \<and>
   toString \<lparr>r = Num 0, g = Num 0, b = Num 0, a = Num 1, rl = None, cb = None\<rparr> ''rgb'' =
     ''rgb(0,0,0)'' \<and>
   toString \<lparr>r = Num 0, g = Num 0, b = Num 0, a = Num 0.9996, rl = None, cb = None\<rparr> ''rgb'' =
     ''rgba(0,0,0,1)'' \<and>
   equals \<lparr>r = Num 0, g = Num 0, b = Num 0, a = Num 1, rl = None, cb = None\<rparr>
     (InColor \<lparr>r = Num 0, g = Num 0, b = Num 0, a = Num 0.9996, rl = None, cb = None\<rparr>) =
     Inr False"
proof -
  have 1: "js_div (js_round (js_mul (Num 1) (Num 1000))) (Num 1000) =
     js_div (js_round (js_mul (Num 0.9996) (Num 1000))) (Num 1000)"
    by simp
  have 2: "toString \<lparr>r = Num 0, g = Num 0, b = Num 0, a = Num 1, rl = None, cb = None\<rparr>
      ''rgb'' = ''rgb(0,0,0)''"
    by (simp add: toString_rgb_opaque js_eq_def real_to_string_0 real_to_string_1)
  have 3: "toString \<lparr>r = Num 0, g = Num 0, b = Num 0, a = Num 0.9996, rl = None, cb = None\<rparr>
      ''rgb'' = ''rgba(0,0,0,1)''"
    by (simp add: toString_rgb_alpha js_eq_def real_to_string_0 real_to_string_1)
  from 2 3 have 4: "equals \<lparr>r = Num 0, g = Num 0, b = Num 0, a = Num 1, rl = None, cb = None\<rparr>
     (InColor \<lparr>r = Num 0, g = Num 0, b = Num 0, a = Num 0.9996, rl = None, cb = None\<rparr>) =
     Inr False"
    by (simp add: equals_def webcolor_def)
  from 1 2 3 4 show ?thesis by blast
qed

subsection \<open>Blending in exact arithmetic\<close>

lemma convex_bound:
  fixes p x y m :: real
  assumes "0 \<le> p" "p \<le> 1" "0 \<le> x" "x \<le> m" "0 \<le> y" "y \<le> m"
  shows "0 \<le> (1 - p) * x + p * y \<and> (1 - p) * x + p * y \<le> m"
proof -
  have "(1 - p) * x \<le> (1 - p) * m" "p * y \<le> p * m"
    using assms by (simp_all add: mult_left_mono)
  then have "(1 - p) * x + p * y \<le> (1 - p) * m + p * m" by (rule add_mono)
  also have "\<dots> = m" by (simp add: algebra_simps)
  finally have "(1 - p) * x + p * y \<le> m" .
  moreover have "0 \<le> (1 - p) * x + p * y" using assms by simp
  ultimately show ?thesis by blast
qed

lemma mix_linear:
  assumes "0 \<le> p" "p \<le> 1" "chan_ok u" "chan_ok v"
  shows "chan_ok (js_add (js_mul (js_sub (Num 1) (Num p)) u) (js_mul (Num p) v))"
proof -
  from assms(3,4) obtain x y where u: "u = Num x" "0 \<le> x" "x \<le> 255"
    and v: "v = Num y" "0 \<le> y" "y \<le> 255"
    by (blast dest: chan_okE)
  from convex_bound [OF assms(1,2) u(2,3) v(2,3)] show ?thesis
    by (simp add: u v js_sub_def)
qed

lemma mix_sqrt:
  assumes "0 \<le> p" "p \<le> 1" "chan_ok u" "chan_ok v"
  shows "chan_ok (js_pow (js_add (js_mul (js_sub (Num 1) (Num p)) (js_pow u 2))
                    (js_mul (Num p) (js_pow v 2))) (1 / 2))"
proof -
  from assms(3,4) obtain x y where u: "u = Num x" "0 \<le> x" "x \<le> 255"
    and v: "v = Num y" "0 \<le> y" "y \<le> 255"
    by (blast dest: chan_okE)
  have sq: "0 \<le> x\<^sup>2" "x\<^sup>2 \<le> 65025" "0 \<le> y\<^sup>2" "y\<^sup>2 \<le> 65025"
    using sq_le_255 [OF u(2,3)] sq_le_255 [OF v(2,3)] by simp_all
  from convex_bound [OF assms(1,2) sq]
  have b: "0 \<le> (1 - p) * x\<^sup>2 + p * y\<^sup>2" "(1 - p) * x\<^sup>2 + p * y\<^sup>2 \<le> 65025" by simp_all
  have s: "sqrt 65025 = 255" using real_sqrt_abs [of 255] by simp
  from b(2) have "sqrt ((1 - p) * x\<^sup>2 + p * y\<^sup>2) \<le> sqrt 65025"
    by (simp only: real_sqrt_le_iff)
  then have "sqrt ((1 - p) * x\<^sup>2 + p * y\<^sup>2) \<le> 255" by (simp add: s)
  moreover have "js_pow (Num x) 2 = Num (x\<^sup>2)" "js_pow (Num y) 2 = Num (y\<^sup>2)"
    using u(2,3) v(2,3) by (simp_all add: js_pow_2_Num)
  ultimately show ?thesis
    using b by (simp add: u(1) v(1) js_sub_def js_pow_half_Num)
qed

lemma mix_alpha:
  assumes "0 \<le> p" "p \<le> 1" "alpha_ok u" "alpha_ok v"
  shows "alpha_ok (js_add (js_mul u (js_sub (Num 1) (Num p))) (js_mul v (Num p)))"
proof -
  from assms(3,4) obtain x y where u: "u = Num x" "0 \<le> x" "x \<le> 1"
    and v: "v = Num y" "0 \<le> y" "y \<le> 1"
    by (cases u; cases v) simp_all
  from convex_bound [OF assms(1,2) u(2,3) v(2,3)] show ?thesis
    by (simp add: u v js_sub_def mult.commute)
qed

lemma alpha_ok_ge: "alpha_ok u \<Longrightarrow> js_ge u (Num 0) \<and> \<not> js_lt u (Num 0)"
  by (cases u) (simp_all add: js_ge_def js_le_def)


lemma shadeBlend_white_exact:
  assumes "0 \<le> p" "p \<le> 1"
  shows "shadeBlend_of \<lparr>r = Num 255, g = Num 255, b = Num 255, a = Num 1, rl = None, cb = None\<rparr>
           (Num p) None True =
         Some \<lparr>r = Num 255, g = Num 255, b = Num 255, a = Num 1, rl = None, cb = None\<rparr>"
proof -
  have "(1 - p) * 255 + p * 255 = 255" "1 - p + p = 1" by (simp_all add: algebra_simps)
  then show ?thesis
    using assms
    by (simp add: shadeBlend_of_def Let_def js_gt_def js_ge_def js_le_def js_sub_def
        webcolor_of_obj_def prototype_def)
qed


subsection \<open>Rounding in the linear blend\<close>

lemma round_even_near:
  assumes "of_int m - 1 / 2 < x" "x < of_int m + 1 / 2"
  shows "round_even x = m"
proof -
  have "\<lfloor>x\<rfloor> = m \<or> \<lfloor>x\<rfloor> = m - 1" using assms by linarith
  then show ?thesis
  proof
    assume "\<lfloor>x\<rfloor> = m"
    then show ?thesis using assms by (simp add: round_even_def Let_def)
  next
    assume "\<lfloor>x\<rfloor> = m - 1"
    then show ?thesis using assms by (simp add: round_even_def Let_def)
  qed
qed

lemma to_double_scaled:
  assumes "2 ^ 52 \<le> x * 2 ^ n" "x * 2 ^ n < 2 ^ 53"
  shows "to_double x = of_int (round_even (x * 2 ^ n)) / 2 ^ n"
proof -
  have x: "0 < x"
  proof (rule ccontr)
    assume "\<not> 0 < x"
    then have "x * 2 ^ n \<le> 0" by (simp add: mult_le_0_iff)
    then show False using assms(1) by simp
  qed
  have "\<lfloor>log 2 x\<rfloor> = 52 - int n"
  proof (rule floor_log_eq_powr_iff [THEN iffD2])
    have a: "2 powr real_of_int (52 - int n) = 2 ^ 52 / 2 ^ n"
      by (simp add: powr_diff powr_realpow)
    have b: "2 powr real_of_int (52 - int n + 1) = 2 ^ 53 / 2 ^ n"
      by (simp add: powr_diff powr_add powr_realpow)
    show "2 powr real_of_int (52 - int n) \<le> x \<and> x < 2 powr real_of_int (52 - int n + 1)"
      unfolding a b using assms by (simp add: field_simps)
  qed (use x in simp_all)
  moreover have "2 powr real_of_int (- int n) = 1 / 2 ^ n"
    by (simp add: powr_minus powr_realpow field_simps)
  ultimately show ?thesis using x by (simp add: to_double_def Let_def)
qed

lemma to_double_at:
  assumes "2 ^ 52 \<le> x * 2 ^ n" "x * 2 ^ n < 2 ^ 53"
    and "of_int m - 1 / 2 < x * 2 ^ n" "x * 2 ^ n < of_int m + 1 / 2"
  shows "to_double x = of_int m / 2 ^ n"
  using to_double_scaled [OF assms(1,2)] round_even_near [OF assms(3,4)] by simp

text \<open>
  The five roundings of \<^verbatim>\<open>(1 - 0.0035) * 255 + 0.0035 * 255\<close>: the literal, the
  difference, the two products and the sum.
\<close>

lemma amount_double: "to_double (35 / 10000) = 8070450532247929 / 2 ^ 61"
  using to_double_at [of "35 / 10000" 61 8070450532247929] by simp

lemma rest_double: "to_double (1 - 8070450532247929 / 2 ^ 61) = 8975674057349399 / 2 ^ 53"
  using to_double_at [of "1 - 8070450532247929 / 2 ^ 61" 53 8975674057349399] by simp

lemma left_double: "to_double (8975674057349399 / 2 ^ 53 * 255) = 8940612830562878 / 2 ^ 45"
  using to_double_at [of "8975674057349399 / 2 ^ 53 * 255" 45 8940612830562878] by simp

lemma right_double: "to_double (8070450532247929 / 2 ^ 61 * 255) = 8038925334856336 / 2 ^ 53"
  using to_double_at [of "8070450532247929 / 2 ^ 61 * 255" 53 8038925334856336] by simp

lemma sum_double:
  "to_double (8940612830562878 / 2 ^ 45 + 8038925334856336 / 2 ^ 53) =
     8972014882652161 / 2 ^ 45"
  using to_double_at [of "8940612830562878 / 2 ^ 45 + 8038925334856336 / 2 ^ 53" 45
      8972014882652161]
  by simp


subsection \<open>Hexadecimal digits and \<^verbatim>\<open>parseInt\<close>\<close>

lemma is_hex_cases:
  "is_hex c \<longleftrightarrow>
     c = CHR ''0'' \<or> c = CHR ''1'' \<or> c = CHR ''2'' \<or> c = CHR ''3'' \<or> c = CHR ''4'' \<or>
     c = CHR ''5'' \<or> c = CHR ''6'' \<or> c = CHR ''7'' \<or> c = CHR ''8'' \<or> c = CHR ''9'' \<or>
     c = CHR ''a'' \<or> c = CHR ''b'' \<or> c = CHR ''c'' \<or> c = CHR ''d'' \<or> c = CHR ''e'' \<or>
     c = CHR ''f''"
  by (simp add: is_hex_def)

lemma hex_digit_value:
  assumes "is_hex c"
  shows "digit_value c = Some (hexval c) \<and> hexval c < 16 \<and> digit_char (hexval c) = c"
  using assms unfolding is_hex_cases
  by (elim disjE)
     (simp_all add: hexval_def digits_value_def digit_value_def lower_char_def digit_char_def)

lemma hex_is_digit: "is_hex c \<Longrightarrow> is_digit_in 16 c"
  using hex_digit_value [of c] by (simp add: is_digit_in_def)

lemma hex_plain:
  assumes "is_hex c"
  shows "\<not> is_ws c \<and> c \<noteq> CHR ''+'' \<and> c \<noteq> CHR ''-'' \<and> c \<noteq> CHR ''x'' \<and> c \<noteq> CHR ''X''"
  using assms unfolding is_hex_cases
  by (elim disjE) (simp_all add: is_ws_def)

lemma digits_value_snoc: "digits_value R (xs @ [c]) = digits_value R xs * R + digits_value R [c]"
  by (simp add: digits_value_def)

lemma digits_value_append:
  "digits_value R (xs @ ys) = digits_value R xs * R ^ length ys + digits_value R ys"
proof (induction ys rule: rev_induct)
  case Nil
  then show ?case by (simp add: digits_value_def)
next
  case (snoc y ys)
  have "digits_value R (xs @ ys @ [y]) = digits_value R ((xs @ ys) @ [y])" by simp
  also have "\<dots> = digits_value R (xs @ ys) * R + digits_value R [y]"
    by (rule digits_value_snoc)
  also have "\<dots> = digits_value R xs * R ^ length (ys @ [y]) +
      (digits_value R ys * R + digits_value R [y])"
    by (simp add: snoc.IH algebra_simps)
  also have "digits_value R ys * R + digits_value R [y] = digits_value R (ys @ [y])"
    by (rule digits_value_snoc [symmetric])
  finally show ?case .
qed

lemma digits_value_hex_bound:
  "list_all is_hex ds \<Longrightarrow> digits_value 16 ds < 16 ^ length ds"
proof (induction ds rule: rev_induct)
  case Nil
  then show ?case by (simp add: digits_value_def)
next
  case (snoc c ds)
  then have "digits_value 16 ds < 16 ^ length ds" and "hexval c < 16"
    using hex_digit_value [of c] by simp_all
  then have "digits_value 16 ds * 16 + hexval c < 16 ^ length ds * 16"
    by linarith
  then show ?case by (simp add: digits_value_snoc hexval_def)
qed

lemma parseInt_hex:
  assumes "ds \<noteq> []" "list_all is_hex ds" "length ds \<le> 16"
  shows "js_parseInt ds 16 = Num (real (digits_value 16 ds))"
proof -
  have "digits_value 16 ds < 16 ^ length ds" by (rule digits_value_hex_bound [OF assms(2)])
  also have "(16::nat) ^ length ds \<le> 16 ^ 16" using assms(3) by (intro power_increasing) simp_all
  finally have "real (digits_value 16 ds) \<le> real (16 ^ 16)" by (simp only: of_nat_le_iff)
  then have "\<bar>real (digits_value 16 ds)\<bar> \<le> 2 ^ 64" by simp
  then have o: "js_overflow (real (digits_value 16 ds)) = Num (real (digits_value 16 ds))"
    by (rule js_overflow_Num)
  obtain c cs where ds: "ds = c # cs" using assms(1) by (cases ds) auto
  from assms(2) ds have c: "is_hex c" by simp
  note pl = hex_plain [OF c]
  have t: "dropWhile is_ws ds = ds" using pl by (simp add: ds)
  have sg: "take 1 ds \<noteq> ''-''" "take 1 ds \<noteq> ''+''" using pl by (simp_all add: ds)
  have px: "take 2 ds \<noteq> ''0x''" "take 2 ds \<noteq> ''0X''"
  proof -
    show "take 2 ds \<noteq> ''0x''"
    proof (cases cs)
      case Nil
      then show ?thesis by (simp add: ds)
    next
      case (Cons c2 cs2)
      with assms(2) ds have "is_hex c2" by simp
      from hex_plain [OF this] show ?thesis by (simp add: ds Cons)
    qed
    show "take 2 ds \<noteq> ''0X''"
    proof (cases cs)
      case Nil
      then show ?thesis by (simp add: ds)
    next
      case (Cons c2 cs2)
      with assms(2) ds have "is_hex c2" by simp
      from hex_plain [OF this] show ?thesis by (simp add: ds Cons)
    qed
  qed
  have z: "takeWhile (is_digit_in 16) ds = ds"
    using assms(2) by (simp add: takeWhile_eq_all_conv list_all_iff hex_is_digit)
  show ?thesis
    using assms(1) sg px by (simp add: js_parseInt_def t z Let_def o)
qed

subsection \<open>Shifts and masks on parsed values\<close>

lemma toInt32_of_nat: "toInt32 (Num (real n)) = word_of_nat n"
  by simp

lemma toInt32_of_int: "toInt32 (Num (real_of_int i)) = word_of_int i"
  by simp

lemma js_shr_nat:
  "js_shr (Num (real n)) k = Num (real_of_int (drop_bit k (signed_take_bit 31 (int n))))"
  by (simp add: js_shr_def sint_signed_drop_bit_eq signed_of_nat del: toInt32.simps
      add: toInt32_of_nat)

lemma js_band_255_int:
  "js_band (Num (real_of_int j)) (Num 255) =
     Num (real_of_int (take_bit 8 (signed_take_bit 31 j)))"
proof -
  have "toInt32 (Num 255) = 255" by simp
  then have "sint (toInt32 (Num (real_of_int j)) AND toInt32 (Num 255)) =
        signed_take_bit 31 j AND 255"
    by (simp add: signed_and_eq signed_of_int toInt32_of_int del: toInt32.simps)
  also have "\<dots> = take_bit 8 (signed_take_bit 31 j)"
    by (simp add: take_bit_eq_mask mask_eq_exp_minus_1)
  finally show ?thesis by (simp add: js_band_def del: toInt32.simps)
qed

lemma low_byte_bits:
  assumes "k \<le> 24"
  shows "take_bit 8 (signed_take_bit 31 (drop_bit k (signed_take_bit 31 (i::int)))) =
     take_bit 8 (drop_bit k i)"
proof (rule bit_eqI)
  fix n
  show "bit (take_bit 8 (signed_take_bit 31 (drop_bit k (signed_take_bit 31 i)))) n =
        bit (take_bit 8 (drop_bit k i)) n"
  proof (cases "n < 8")
    case True
    with assms have "min 31 n = n" "min 31 (k + n) = k + n" by simp_all
    then show ?thesis by (simp add: bit_simps)
  next
    case False
    then show ?thesis by (simp add: bit_simps)
  qed
qed

lemma byte_of_nat: "take_bit 8 (drop_bit k (int n)) = int ((n div 2 ^ k) mod 256)"
  by (simp add: take_bit_eq_mod drop_bit_eq_div zdiv_int zmod_int)

lemma js_band_shr:
  "k \<le> 24 \<Longrightarrow>
   js_band (js_shr (Num (real n)) k) (Num 255) = Num (real ((n div 2 ^ k) mod 256))"
  by (simp add: js_shr_nat js_band_255_int low_byte_bits byte_of_nat)

lemma js_band_low: "js_band (Num (real n)) (Num 255) = Num (real (n mod 256))"
proof -
  have "js_band (Num (real_of_int (int n))) (Num 255) =
      Num (real_of_int (take_bit 8 (signed_take_bit 31 (int n))))"
    by (rule js_band_255_int)
  moreover have "take_bit 8 (signed_take_bit 31 (int n)) = take_bit 8 (drop_bit 0 (int n))"
    by (rule bit_eqI) (auto simp add: bit_simps min_def)
  moreover have "take_bit 8 (drop_bit 0 (int n)) = int (n mod 256)"
    using byte_of_nat [of 0 n] by simp
  ultimately show ?thesis
    by simp
qed

lemma js_shr_small:
  "n < 2 ^ 31 \<Longrightarrow> js_shr (Num (real n)) k = Num (real (n div 2 ^ k))"
proof -
  assume "n < 2 ^ 31"
  then have "int n < 2 ^ 31" by (simp add: of_nat_less_numeral_power_cancel_iff)
  then have "signed_take_bit 31 (int n) = int n"
    by (simp add: signed_take_bit_int_eq_self)
  moreover have "int n div 2 ^ k = int (n div 2 ^ k)"
    by (simp add: zdiv_int)
  ultimately show ?thesis
    by (simp add: js_shr_nat drop_bit_eq_div)
qed

subsection \<open>The hexadecimal branch on digits\<close>

lemma byte_extract:
  assumes "list_all is_hex (pre @ mid @ post)" "length mid = 2"
  shows "(digits_value 16 (pre @ mid @ post) div 16 ^ length post) mod 256 =
           digits_value 16 mid"
proof -
  have hp: "list_all is_hex post" and hm: "list_all is_hex mid" using assms(1) by simp_all
  have bp: "digits_value 16 post < 16 ^ length post" by (rule digits_value_hex_bound [OF hp])
  have bm: "digits_value 16 mid < 256"
    using digits_value_hex_bound [OF hm] assms(2) by simp
  have "digits_value 16 (pre @ mid @ post) =
          digits_value 16 (pre @ mid) * 16 ^ length post + digits_value 16 post"
    using digits_value_append [of 16 "pre @ mid" post] by simp
  then have "digits_value 16 (pre @ mid @ post) div 16 ^ length post = digits_value 16 (pre @ mid)"
    using bp by simp
  also have "\<dots> = digits_value 16 pre * 256 + digits_value 16 mid"
    using digits_value_append [of 16 pre mid] assms(2) by simp
  finally show ?thesis using bm by simp
qed

lemma hex_branch_6:
  assumes "list_all is_hex [c1, c2, c3, c4, c5, c6]"
  shows "hex_branch [x, c1, c2, c3, c4, c5, c6] =
     Some \<lparr>r = Num (real (digits_value 16 [c1, c2])),
           g = Num (real (digits_value 16 [c3, c4])),
           b = Num (real (digits_value 16 [c5, c6])), a = Num 1\<rparr>"
proof -
  let ?N = "digits_value 16 [c1, c2, c3, c4, c5, c6]"
  have p: "js_parseInt [c1, c2, c3, c4, c5, c6] 16 = Num (real ?N)"
    using assms by (intro parseInt_hex) simp_all
  have bN: "?N < 2 ^ 31"
    using digits_value_hex_bound [OF assms] by simp
  have r0: "(?N div 65536) mod 256 = digits_value 16 [c1, c2]"
    using byte_extract [of "[]" "[c1, c2]" "[c3, c4, c5, c6]"] assms by simp
  have "?N div 65536 < 256"
    using digits_value_hex_bound [OF assms] by simp
  with r0 have r1: "?N div 65536 = digits_value 16 [c1, c2]" by simp
  have g1: "(?N div 256) mod 256 = digits_value 16 [c3, c4]"
    using byte_extract [of "[c1, c2]" "[c3, c4]" "[c5, c6]"] assms by simp
  have b1: "?N mod 256 = digits_value 16 [c5, c6]"
    using byte_extract [of "[c1, c2, c3, c4]" "[c5, c6]" "[]"] assms by simp
  have sr: "js_shr (Num (real ?N)) 16 = Num (real (digits_value 16 [c1, c2]))"
    using js_shr_small [OF bN, of 16] r1 by simp
  have sg: "js_band (js_shr (Num (real ?N)) 8) (Num 255) = Num (real (digits_value 16 [c3, c4]))"
    using js_band_shr [of 8 ?N] g1 by simp
  have sb: "js_band (Num (real ?N)) (Num 255) = Num (real (digits_value 16 [c5, c6]))"
    using js_band_low [of ?N] b1 by simp
  show ?thesis
    by (simp add: hex_branch_def Let_def js_slice_def slice_index_def p sr sg sb)
qed

lemma hex_branch_8:
  assumes "list_all is_hex [c1, c2, c3, c4, c5, c6, c7, c8]"
  shows "hex_branch [x, c1, c2, c3, c4, c5, c6, c7, c8] =
     Some \<lparr>r = Num (real (digits_value 16 [c1, c2])),
           g = Num (real (digits_value 16 [c3, c4])),
           b = Num (real (digits_value 16 [c5, c6])),
           a = Num (real_of_int \<lfloor>real (digits_value 16 [c7, c8]) / 255 * 1000 + 1 / 2\<rfloor> / 1000)\<rparr>"
proof -
  let ?N = "digits_value 16 [c1, c2, c3, c4, c5, c6, c7, c8]"
  have p: "js_parseInt [c1, c2, c3, c4, c5, c6, c7, c8] 16 = Num (real ?N)"
    using assms by (intro parseInt_hex) simp_all
  have r1: "(?N div 16777216) mod 256 = digits_value 16 [c1, c2]"
    using byte_extract [of "[]" "[c1, c2]" "[c3, c4, c5, c6, c7, c8]"] assms by simp
  have g1: "(?N div 65536) mod 256 = digits_value 16 [c3, c4]"
    using byte_extract [of "[c1, c2]" "[c3, c4]" "[c5, c6, c7, c8]"] assms by simp
  have b1: "(?N div 256) mod 256 = digits_value 16 [c5, c6]"
    using byte_extract [of "[c1, c2, c3, c4]" "[c5, c6]" "[c7, c8]"] assms by simp
  have a1: "?N mod 256 = digits_value 16 [c7, c8]"
    using byte_extract [of "[c1, c2, c3, c4, c5, c6]" "[c7, c8]" "[]"] assms by simp
  have sr: "js_band (js_shr (Num (real ?N)) 24) (Num 255) = Num (real (digits_value 16 [c1, c2]))"
    using js_band_shr [of 24 ?N] r1 by simp
  have sg: "js_band (js_shr (Num (real ?N)) 16) (Num 255) = Num (real (digits_value 16 [c3, c4]))"
    using js_band_shr [of 16 ?N] g1 by simp
  have sb: "js_band (js_shr (Num (real ?N)) 8) (Num 255) = Num (real (digits_value 16 [c5, c6]))"
    using js_band_shr [of 8 ?N] b1 by simp
  have sa: "js_band (Num (real ?N)) (Num 255) = Num (real (digits_value 16 [c7, c8]))"
    using js_band_low [of ?N] a1 by simp
  show ?thesis
    by (simp add: hex_branch_def Let_def js_slice_def slice_index_def p sr sg sb sa
        mult.commute)
qed

lemma hex_branch_3: "hex_branch [x, c1, c2, c3] = hex_branch [CHR ''#'', c1, c1, c2, c2, c3, c3]"
  by (simp add: hex_branch_def Let_def js_slice_def slice_index_def)

lemma hex_branch_4:
  "hex_branch [x, c1, c2, c3, c4] = hex_branch [CHR ''#'', c1, c1, c2, c2, c3, c3, c4, c4]"
  by (simp add: hex_branch_def Let_def js_slice_def slice_index_def)

lemma hex_branch_None:
  "hex_branch s = None \<longleftrightarrow> length s = 8 \<or> length s = 6 \<or> length s < 4"
  by (simp add: hex_branch_def Let_def)

subsection \<open>Strings that start with a hash\<close>

lemma stringInputToObject_hash:
  assumes "toLowerCase (trim s0) = CHR ''#'' # ds"
  shows "stringInputToObject s0 =
     (if 8 < length ds then rgb_branch (CHR ''#'' # ds) else hex_branch (CHR ''#'' # ds))"
  by (simp add: stringInputToObject_def assms js_char_at_def)

lemma length_3E: "length xs = 3 \<Longrightarrow> \<exists>c1 c2 c3. xs = [c1, c2, c3]"
  by (auto simp add: eval_nat_numeral length_Suc_conv)

lemma length_4E: "length xs = 4 \<Longrightarrow> \<exists>c1 c2 c3 c4. xs = [c1, c2, c3, c4]"
  by (auto simp add: eval_nat_numeral length_Suc_conv)

lemma length_6E: "length xs = 6 \<Longrightarrow> \<exists>c1 c2 c3 c4 c5 c6. xs = [c1, c2, c3, c4, c5, c6]"
  by (auto simp add: eval_nat_numeral length_Suc_conv)

lemma length_8E:
  "length xs = 8 \<Longrightarrow> \<exists>c1 c2 c3 c4 c5 c6 c7 c8. xs = [c1, c2, c3, c4, c5, c6, c7, c8]"
  by (auto simp add: eval_nat_numeral length_Suc_conv)

lemma hex_branch_hex_color:
  assumes "list_all is_hex ds" "length ds = 3 \<or> length ds = 4 \<or> length ds = 6 \<or> length ds = 8"
  shows "hex_branch (x # ds) = Some (hex_color ds)"
  using assms(2)
proof (elim disjE)
  assume "length ds = 3"
  then obtain c1 c2 c3 where ds: "ds = [c1, c2, c3]" by (blast dest: length_3E)
  with assms(1) have "list_all is_hex [c1, c1, c2, c2, c3, c3]" by simp
  from hex_branch_6 [OF this] show ?thesis
    by (simp add: ds hex_branch_3 hex_color_def double_digits_def hex_byte_def)
next
  assume "length ds = 4"
  then obtain c1 c2 c3 c4 where ds: "ds = [c1, c2, c3, c4]" by (blast dest: length_4E)
  with assms(1) have "list_all is_hex [c1, c1, c2, c2, c3, c3, c4, c4]" by simp
  from hex_branch_8 [OF this] show ?thesis
    by (simp add: ds hex_branch_4 hex_color_def double_digits_def hex_byte_def)
next
  assume "length ds = 6"
  then obtain c1 c2 c3 c4 c5 c6 where ds: "ds = [c1, c2, c3, c4, c5, c6]"
    by (blast dest: length_6E)
  from hex_branch_6 [OF assms(1) [unfolded ds]] show ?thesis
    by (simp add: ds hex_color_def hex_byte_def)
next
  assume "length ds = 8"
  then obtain c1 c2 c3 c4 c5 c6 c7 c8 where ds: "ds = [c1, c2, c3, c4, c5, c6, c7, c8]"
    by (blast dest: length_8E)
  from hex_branch_8 [OF assms(1) [unfolded ds]] show ?thesis
    by (simp add: ds hex_color_def hex_byte_def)
qed

lemma hex_general:
  assumes "toLowerCase (trim s0) = CHR ''#'' # ds" and "length ds \<le> 8"
  shows "(stringInputToObject s0 = None) =
           (length ds < 3 \<or> length ds = 5 \<or> length ds = 7) \<and>
         (list_all is_hex ds \<and> \<not> (length ds < 3 \<or> length ds = 5 \<or> length ds = 7) \<longrightarrow>
            stringInputToObject s0 = Some (hex_color ds))"
proof -
  have e: "stringInputToObject s0 = hex_branch (CHR ''#'' # ds)"
    using assms(2) by (simp add: stringInputToObject_hash [OF assms(1)])
  have 1: "(stringInputToObject s0 = None) = (length ds < 3 \<or> length ds = 5 \<or> length ds = 7)"
    unfolding e hex_branch_None by auto
  have 2: "list_all is_hex ds \<and> \<not> (length ds < 3 \<or> length ds = 5 \<or> length ds = 7) \<longrightarrow>
            stringInputToObject s0 = Some (hex_color ds)"
  proof
    assume a: "list_all is_hex ds \<and> \<not> (length ds < 3 \<or> length ds = 5 \<or> length ds = 7)"
    with assms(2) have "length ds = 3 \<or> length ds = 4 \<or> length ds = 6 \<or> length ds = 8"
      by arith
    with a show "stringInputToObject s0 = Some (hex_color ds)"
      unfolding e by (intro hex_branch_hex_color) simp_all
  qed
  from 1 2 show ?thesis by blast
qed

subsection \<open>The hexadecimal forms\<close>

lemmas hex_eval_defs = hex_color_def hex_byte_def double_digits_def digits_value_def
  digit_value_def lower_char_def is_hex_def

lemma webcolor_hex:
  assumes "toLowerCase (trim s0) = CHR ''#'' # ds" and "list_all is_hex ds"
    and "length ds = 3 \<or> length ds = 4 \<or> length ds = 6 \<or> length ds = 8"
  shows "webcolor (InStr s0) =
     Inr \<lparr>r = r (hex_color ds), g = g (hex_color ds), b = b (hex_color ds),
          a = a (hex_color ds), rl = None, cb = None\<rparr>"
proof -
  from assms(3) have "length ds \<le> 8" "\<not> (length ds < 3 \<or> length ds = 5 \<or> length ds = 7)"
    by auto
  with hex_general [OF assms(1)] assms(2)
  have "stringInputToObject s0 = Some (hex_color ds)" by blast
  then show ?thesis
    by (simp add: webcolor_def webcolor_of_obj_def prototype_def)
qed

lemma example_43C403:
  "webcolor (InStr ''#43C403'') =
     Inr \<lparr>r = Num 67, g = Num 196, b = Num 3, a = Num 1, rl = None, cb = None\<rparr>"
proof -
  have n: "toLowerCase (trim ''#43C403'') = CHR ''#'' # ''43c403''"
    by (simp add: norm_defs)
  have h: "list_all is_hex ''43c403''" by (simp add: is_hex_def)
  have c: "hex_color ''43c403'' = \<lparr>r = Num 67, g = Num 196, b = Num 3, a = Num 1\<rparr>"
    by (simp add: hex_eval_defs)
  from webcolor_hex [OF n h] show ?thesis by (simp add: c)
qed

lemma example_43C40399:
  "webcolor (InStr ''#43C40399'') =
     Inr \<lparr>r = Num 67, g = Num 196, b = Num 3, a = Num 0.6, rl = None, cb = None\<rparr>"
proof -
  have n: "toLowerCase (trim ''#43C40399'') = CHR ''#'' # ''43c40399''"
    by (simp add: norm_defs)
  have h: "list_all is_hex ''43c40399''" by (simp add: is_hex_def)
  have c: "hex_color ''43c40399'' = \<lparr>r = Num 67, g = Num 196, b = Num 3, a = Num 0.6\<rparr>"
    by (simp add: hex_eval_defs)
  from webcolor_hex [OF n h] show ?thesis by (simp add: c)
qed

lemma example_F3A:
  "webcolor (InStr ''#F3A'') =
     Inr \<lparr>r = Num 255, g = Num 51, b = Num 170, a = Num 1, rl = None, cb = None\<rparr>"
proof -
  have n: "toLowerCase (trim ''#F3A'') = CHR ''#'' # ''f3a''"
    by (simp add: norm_defs)
  have h: "list_all is_hex ''f3a''" by (simp add: is_hex_def)
  have c: "hex_color ''f3a'' = \<lparr>r = Num 255, g = Num 51, b = Num 170, a = Num 1\<rparr>"
    by (simp add: hex_eval_defs)
  from webcolor_hex [OF n h] show ?thesis by (simp add: c)
qed

text \<open>
  Claim C5, with digits that are not checked. For an input whose trimmed, lower-cased
  form is \<^verbatim>\<open>#\<close> followed by at most 8 characters, the parser returns \<^verbatim>\<open>null\<close>
  exactly when fewer than 3, or 5, or 7 characters follow the \<^verbatim>\<open>#\<close> (the total
  lengths below 4, 6 and 8), whatever the characters are. When 3, 4, 6 or 8 hexadecimal
  digits follow, the result is the colour of these digits: the short forms are expanded
  by doubling every digit, the bytes are read from the left, a fourth byte is the alpha
  divided by 255 and rounded to three decimals, and the alpha is 1 without it. So
  \<^verbatim>\<open>#43C403\<close> is 67, 196, 3, 1, the alpha of \<^verbatim>\<open>#43C40399\<close> is 0.6, and \<^verbatim>\<open>#F3A\<close> is
  255, 51, 170, 1.
\<close>

theorem hex_forms:
  assumes "toLowerCase (trim s0) = CHR ''#'' # ds" and "length ds \<le> 8"
  shows "(stringInputToObject s0 = None) =
           (length ds < 3 \<or> length ds = 5 \<or> length ds = 7) \<and>
         (list_all is_hex ds \<and> \<not> (length ds < 3 \<or> length ds = 5 \<or> length ds = 7) \<longrightarrow>
            stringInputToObject s0 = Some (hex_color ds)) \<and>
         webcolor (InStr ''#43C403'') =
           Inr \<lparr>r = Num 67, g = Num 196, b = Num 3, a = Num 1, rl = None, cb = None\<rparr> \<and>
         webcolor (InStr ''#43C40399'') =
           Inr \<lparr>r = Num 67, g = Num 196, b = Num 3, a = Num 0.6, rl = None, cb = None\<rparr> \<and>
         webcolor (InStr ''#F3A'') =
           Inr \<lparr>r = Num 255, g = Num 51, b = Num 170, a = Num 1, rl = None, cb = None\<rparr>"
  using hex_general [OF assms] example_43C403 example_43C40399 example_F3A by blast

theorem hex_forms_witness:
  "toLowerCase (trim '' #F3A9'') = CHR ''#'' # ''f3a9'' \<and> length ''f3a9'' \<le> 8 \<and>
   list_all is_hex ''f3a9'' \<and>
   stringInputToObject '' #F3A9'' =
     Some \<lparr>r = Num 255, g = Num 51, b = Num 170, a = Num 0.6\<rparr>"
proof -
  have n: "toLowerCase (trim '' #F3A9'') = CHR ''#'' # ''f3a9''"
    by (simp add: norm_defs)
  have l: "length ''f3a9'' \<le> 8" by simp
  have h: "list_all is_hex ''f3a9''" by (simp add: is_hex_def)
  have c: "hex_color ''f3a9'' = \<lparr>r = Num 255, g = Num 51, b = Num 170, a = Num 0.6\<rparr>"
    by (simp add: hex_eval_defs)
  from hex_forms [OF n l] h have "stringInputToObject '' #F3A9'' = Some (hex_color ''f3a9'')"
    by simp
  with n l h c show ?thesis by simp
qed

lemma names_rabc: "map_of names ''rabc'' = None"
  by code_simp

text \<open>
  The parser does not accept exactly the four forms: \<^verbatim>\<open>#xyz\<close> has no hexadecimal
  digit and is read as black, and \<^verbatim>\<open>rabc\<close>, which does not start with \<^verbatim>\<open>#\<close>, is
  read by the same branch as \<^verbatim>\<open>#abc\<close>.
\<close>

theorem hex_forms_counterexample:
  "stringInputToObject ''#xyz'' = Some \<lparr>r = Num 0, g = Num 0, b = Num 0, a = Num 1\<rparr> \<and>
   \<not> list_all is_hex ''xyz'' \<and>
   stringInputToObject ''rabc'' = Some \<lparr>r = Num 170, g = Num 187, b = Num 204, a = Num 1\<rparr>"
proof -
  have n1: "toLowerCase (trim ''#xyz'') = CHR ''#'' # ''xyz''"
    by (simp add: norm_defs)
  have p1: "js_parseInt ''xxyyzz'' 16 = NaN"
    by (simp add: parse_int_defs)
  have h1: "hex_branch ''#xxyyzz'' = Some \<lparr>r = Num 0, g = Num 0, b = Num 0, a = Num 1\<rparr>"
    by (simp add: hex_branch_defs p1)
  have 1: "stringInputToObject ''#xyz'' = Some \<lparr>r = Num 0, g = Num 0, b = Num 0, a = Num 1\<rparr>"
    using hex_branch_3 [of "CHR ''#''" "CHR ''x''" "CHR ''y''" "CHR ''z''"]
    by (simp add: stringInputToObject_hash [OF n1] h1)
  have 2: "\<not> list_all is_hex ''xyz''" by (simp add: is_hex_def)
  have n3: "toLowerCase (trim ''rabc'') = ''rabc''"
    by (simp add: norm_defs)
  have h3: "hex_branch ''rabc'' = Some \<lparr>r = Num 170, g = Num 187, b = Num 204, a = Num 1\<rparr>"
    using hex_branch_hex_color [of "''abc''" "CHR ''r''"]
    by (simp add: hex_eval_defs)
  have 3: "stringInputToObject ''rabc'' =
      Some \<lparr>r = Num 170, g = Num 187, b = Num 204, a = Num 1\<rparr>"
    by (simp add: stringInputToObject_def n3 names_rabc js_char_at_def h3)
  from 1 2 3 show ?thesis by blast
qed

subsection \<open>Named colours\<close>

lemma names_values_hex:
  "list_all (\<lambda>(k, v). list_all is_hex v \<and> (length v = 3 \<or> length v = 6)) names"
  by code_simp

lemma names_distinct: "distinct (map fst names)"
  by code_simp

lemma names_lookup: "(k, v) \<in> set names \<Longrightarrow> map_of names k = Some v"
  using names_distinct by (rule map_of_is_SomeI)

lemma names_entry:
  assumes "(k, v) \<in> set names"
  shows "list_all is_hex v \<and> (length v = 3 \<or> length v = 6)"
  using names_values_hex assms by (auto simp add: list_all_iff)

lemma nat_to_string_snoc:
  assumes "0 < n" "d < 16"
  shows "nat_to_string 16 (n * 16 + d) = nat_to_string 16 n @ [digit_char d]"
proof -
  have "\<not> (n * 16 + d < 16)" using assms(1) by simp
  moreover have "(n * 16 + d) div 16 = n" "(n * 16 + d) mod 16 = d"
    using assms(2) by simp_all
  ultimately show ?thesis
    by (subst nat_to_string.simps) simp
qed

lemma nat_to_string_digits:
  assumes "0 < n" "list_all is_hex ds"
  shows "nat_to_string 16 (n * 16 ^ length ds + digits_value 16 ds) = nat_to_string 16 n @ ds"
  using assms(2)
proof (induction ds rule: rev_induct)
  case Nil
  then show ?case by (simp add: digits_value_def)
next
  case (snoc c ds)
  then have h: "is_hex c" and hs: "list_all is_hex ds" by simp_all
  from hex_digit_value [OF h] have c: "hexval c < 16" "digit_char (hexval c) = c" by simp_all
  let ?m = "n * 16 ^ length ds + digits_value 16 ds"
  have pos: "0 < ?m" using assms(1) by simp
  have e: "n * 16 ^ length (ds @ [c]) + digits_value 16 (ds @ [c]) = ?m * 16 + hexval c"
    by (simp add: digits_value_snoc hexval_def algebra_simps)
  have "nat_to_string 16 (n * 16 ^ length (ds @ [c]) + digits_value 16 (ds @ [c])) =
      nat_to_string 16 ?m @ [digit_char (hexval c)]"
    unfolding e by (rule nat_to_string_snoc [OF pos c(1)])
  also have "\<dots> = nat_to_string 16 n @ ds @ [c]"
    using snoc.IH [OF hs] c(2) by simp
  finally show ?case .
qed

lemma nat_to_string_one: "nat_to_string 16 1 = ''1''"
  by (subst nat_to_string.simps) (simp add: digit_char_def)

lemma real_to_string_nat: "real_to_string radix (real n) = nat_to_string radix n"
  by (simp add: real_to_string_def)

lemma toString_hex_digits:
  assumes "list_all is_hex [c1, c2, c3, c4, c5, c6]"
    and "r c = Num (real (digits_value 16 [c1, c2]))"
    and "g c = Num (real (digits_value 16 [c3, c4]))"
    and "b c = Num (real (digits_value 16 [c5, c6]))"
    and "a c = Num 1"
  shows "toString c ''hex'' = CHR ''#'' # [c1, c2, c3, c4, c5, c6]"
proof -
  let ?R = "digits_value 16 [c1, c2]" and ?G = "digits_value 16 [c3, c4]"
    and ?B = "digits_value 16 [c5, c6]"
  let ?M = "4294967296 + ?R * 16777216 + ?G * 65536 + ?B * 256"
  have z: "list_all is_hex ([c1, c2, c3, c4, c5, c6] @ ''00'')"
    using assms(1) by (simp add: is_hex_def)
  have d: "digits_value 16 ([c1, c2, c3, c4, c5, c6] @ ''00'') =
             ?R * 16777216 + ?G * 65536 + ?B * 256"
    using digits_value_append [of 16 "[c1, c2, c3, c4, c5, c6]" "''00''"]
      digits_value_append [of 16 "[c1, c2, c3, c4]" "[c5, c6]"]
      digits_value_append [of 16 "[c1, c2]" "[c3, c4]"]
    by (simp add: digits_value_def digit_value_def lower_char_def)
  have k: "nat_to_string 16 (1 * 16 ^ length ([c1, c2, c3, c4, c5, c6] @ ''00'') +
          digits_value 16 ([c1, c2, c3, c4, c5, c6] @ ''00'')) =
        nat_to_string 16 1 @ [c1, c2, c3, c4, c5, c6] @ ''00''"
    by (rule nat_to_string_digits [OF _ z]) simp
  have e: "1 * 16 ^ length ([c1, c2, c3, c4, c5, c6] @ ''00'') +
          digits_value 16 ([c1, c2, c3, c4, c5, c6] @ ''00'') = ?M"
    unfolding d by simp
  from k have s: "nat_to_string 16 ?M = ''1'' @ [c1, c2, c3, c4, c5, c6] @ ''00''"
    unfolding e nat_to_string_one .
  have rd: "js_round (Num (real n)) = Num (real n)" for n
    by simp
  have "js_add (js_add (js_add (js_add (Num 4294967296) (js_mul (js_round (r c)) (Num 16777216)))
            (js_mul (js_round (g c)) (Num 65536))) (js_mul (js_round (b c)) (Num 256))) (Num 0) =
        Num (real ?M)"
    by (simp add: assms(2-4) rd del: js_round.simps)
  then show ?thesis
    using s
    by (simp add: toString_def assms(5) js_eq_def real_to_string_nat js_slice_def slice_index_def
        del: js_round.simps of_nat_add of_nat_mult)
qed

lemma stringInputToObject_named:
  assumes "(k, v) \<in> set names" "toLowerCase (trim s0) = k"
  shows "stringInputToObject s0 = Some (hex_color v)"
proof -
  from names_entry [OF assms(1)] have h: "list_all is_hex v" and l: "length v = 3 \<or> length v = 6"
    by simp_all
  from l have l4: "length v = 3 \<or> length v = 4 \<or> length v = 6 \<or> length v = 8" by blast
  from l have le: "\<not> 9 < length (CHR ''#'' # v)" by auto
  show ?thesis
    using le
    by (simp add: stringInputToObject_def assms(2) names_lookup [OF assms(1)] js_char_at_def
        hex_branch_hex_color [OF h l4])
qed

lemma toString_hex_color:
  assumes "list_all is_hex v" "length v = 3 \<or> length v = 6"
    and "r c = r (hex_color v)" "g c = g (hex_color v)" "b c = b (hex_color v)"
    and "a c = a (hex_color v)"
  shows "toString c ''hex'' = CHR ''#'' # canonical_hex v"
  using assms(2)
proof
  assume "length v = 3"
  then obtain c1 c2 c3 where v: "v = [c1, c2, c3]" by (blast dest: length_3E)
  with assms(1) have h: "list_all is_hex [c1, c1, c2, c2, c3, c3]" by simp
  have "toString c ''hex'' = CHR ''#'' # [c1, c1, c2, c2, c3, c3]"
    using assms(3-6)
    by (intro toString_hex_digits [OF h])
       (simp_all add: v hex_color_def hex_byte_def double_digits_def)
  then show ?thesis by (simp add: v canonical_hex_def double_digits_def)
next
  assume "length v = 6"
  then obtain c1 c2 c3 c4 c5 c6 where v: "v = [c1, c2, c3, c4, c5, c6]"
    by (blast dest: length_6E)
  with assms(1) have h: "list_all is_hex [c1, c2, c3, c4, c5, c6]" by simp
  have "toString c ''hex'' = CHR ''#'' # [c1, c2, c3, c4, c5, c6]"
    using assms(3-6)
    by (intro toString_hex_digits [OF h])
       (simp_all add: v hex_color_def hex_byte_def)
  then show ?thesis by (simp add: v canonical_hex_def)
qed

text \<open>
  Claim C6. For every entry of the table of named colours, an input that is the name up
  to case and surrounding white space is accepted by the constructor, and
  \<^verbatim>\<open>toString("hex")\<close> of the colour is \<^verbatim>\<open>#\<close> and the canonical six digits of the
  entry: the six digits of the table, or its three digits each doubled. The alpha is 1
  and is not printed.
\<close>

theorem named_colors_roundtrip:
  assumes "(k, v) \<in> set names" and "toLowerCase (trim s0) = k"
  shows "map_sum id (\<lambda>c. toString c ''hex'') (webcolor (InStr s0)) =
           Inr (CHR ''#'' # canonical_hex v)"
proof -
  from names_entry [OF assms(1)] have h: "list_all is_hex v" and l: "length v = 3 \<or> length v = 6"
    by simp_all
  have w: "webcolor (InStr s0) =
      Inr (webcolor_of_obj (Some (r (hex_color v))) (Some (g (hex_color v)))
             (Some (b (hex_color v))) (Some (a (hex_color v))))"
    by (simp add: webcolor_def stringInputToObject_named [OF assms])
  show ?thesis
    unfolding w
    using toString_hex_color [OF h l, of "webcolor_of_obj (Some (r (hex_color v)))
      (Some (g (hex_color v))) (Some (b (hex_color v))) (Some (a (hex_color v)))"]
    by (simp add: webcolor_of_obj_def prototype_def)
qed

lemma aqua_entry: "(''aqua'', ''0ff'') \<in> set names"
  by code_simp

theorem named_colors_roundtrip_witness:
  "(''aqua'', ''0ff'') \<in> set names \<and> toLowerCase (trim ''  AQUA '') = ''aqua'' \<and>
   map_sum id (\<lambda>c. toString c ''hex'') (webcolor (InStr ''  AQUA '')) = Inr ''#00ffff''"
proof -
  have n: "toLowerCase (trim ''  AQUA '') = ''aqua''"
    by (simp add: norm_defs)
  from named_colors_roundtrip [OF aqua_entry n] aqua_entry n show ?thesis
    by (simp add: canonical_hex_def double_digits_def)
qed

subsection \<open>Failures of the parser\<close>

lemma rgb_branch_None:
  "rgb_branch s = None \<longleftrightarrow>
     length (js_split CHR '','' s) \<noteq> 3 \<and> length (js_split CHR '','' s) \<noteq> 4"
  by (simp add: rgb_branch_def split: list.splits)

text \<open>
  The parser has no throwing path; it returns \<^verbatim>\<open>null\<close> exactly when the trimmed,
  lower-cased input is not a named colour, is not \<^verbatim>\<open>transparent\<close>, and its first
  character is neither \<^verbatim>\<open>r\<close> nor \<^verbatim>\<open>#\<close>, or it has more than 9 characters and
  does not split at its commas into 3 or 4 components, or it has at most 9 characters
  and its length is 8, 6 or below 4.
\<close>

lemma stringInputToObject_None_iff:
  assumes "toLowerCase (trim s0) = s1"
  shows "(stringInputToObject s0 = None) =
           (map_of names s1 = None \<and> s1 \<noteq> ''transparent'' \<and>
            ((js_char_at s1 0 \<noteq> Some CHR ''r'' \<and> js_char_at s1 0 \<noteq> Some CHR ''#'') \<or>
             (9 < length s1 \<and> length (js_split CHR '','' s1) \<noteq> 3 \<and>
              length (js_split CHR '','' s1) \<noteq> 4) \<or>
             (length s1 \<le> 9 \<and> (length s1 = 8 \<or> length s1 = 6 \<or> length s1 < 4))))"
proof (cases "map_of names s1")
  case None
  then show ?thesis
    by (auto simp add: stringInputToObject_def assms rgb_branch_None hex_branch_None)
next
  case (Some h)
  then have "(s1, h) \<in> set names" by (rule map_of_SomeD)
  from stringInputToObject_named [OF this assms] Some show ?thesis by simp
qed

text \<open>
  Claim C1. A malformed input is meant to give a typed failure and never a thrown
  fault, as the parser does when it returns \<^verbatim>\<open>null\<close>. The constructor does not keep
  to this: \<^verbatim>\<open>typeof null\<close> is \<^verbatim>\<open>'object'\<close>, so the \<^verbatim>\<open>null\<close> of the parser enters
  the branch for objects, where reading \<^verbatim>\<open>c[v]\<close> throws a \<^verbatim>\<open>TypeError\<close>. The
  constructor throws on a string exactly when the parser returns \<^verbatim>\<open>null\<close> on it,
  that is, on exactly the inputs described above; on every other string it returns a
  colour with the fields of the record that the parser returns.
\<close>

theorem webcolor_throws_on_failure:
  assumes "toLowerCase (trim s0) = s1"
  shows "(webcolor (InStr s0) = Inl TypeError) = (stringInputToObject s0 = None) \<and>
         (webcolor (InStr s0) = Inl TypeError) =
           (map_of names s1 = None \<and> s1 \<noteq> ''transparent'' \<and>
            ((js_char_at s1 0 \<noteq> Some CHR ''r'' \<and> js_char_at s1 0 \<noteq> Some CHR ''#'') \<or>
             (9 < length s1 \<and> length (js_split CHR '','' s1) \<noteq> 3 \<and>
              length (js_split CHR '','' s1) \<noteq> 4) \<or>
             (length s1 \<le> 9 \<and> (length s1 = 8 \<or> length s1 = 6 \<or> length s1 < 4)))) \<and>
         (\<forall>x. stringInputToObject s0 = Some x \<longrightarrow>
            webcolor (InStr s0) =
              Inr \<lparr>r = r x, g = g x, b = b x, a = a x, rl = None, cb = None\<rparr>)"
proof -
  have 1: "(webcolor (InStr s0) = Inl TypeError) = (stringInputToObject s0 = None)"
    by (simp add: webcolor_def split: option.splits)
  have 3: "\<forall>x. stringInputToObject s0 = Some x \<longrightarrow>
            webcolor (InStr s0) =
              Inr \<lparr>r = r x, g = g x, b = b x, a = a x, rl = None, cb = None\<rparr>"
    by (simp add: webcolor_def webcolor_of_obj_def prototype_def)
  from 1 3 stringInputToObject_None_iff [OF assms] show ?thesis by simp
qed

lemma names_foo: "map_of names ''foo'' = None"
  by code_simp

theorem webcolor_throws_on_failure_witness:
  "toLowerCase (trim '' Foo'') = ''foo'' \<and> stringInputToObject '' Foo'' = None \<and>
   webcolor (InStr '' Foo'') = Inl TypeError"
proof -
  have n: "toLowerCase (trim '' Foo'') = ''foo''"
    by (simp add: norm_defs)
  have 1: "webcolor (InStr '' Foo'') = Inl TypeError"
    using webcolor_throws_on_failure [OF n] by (simp add: names_foo js_char_at_def)
  with webcolor_throws_on_failure [OF n] have 2: "stringInputToObject '' Foo'' = None"
    by blast
  from n 1 2 show ?thesis by blast
qed

lemma parse_rgb_xyz:
  "stringInputToObject ''rgb(x,y,z)'' = Some \<lparr>r = NaN, g = NaN, b = NaN, a = Num 1\<rparr>"
proof -
  have n: "toLowerCase (trim ''rgb(x,y,z)'') = ''rgb(x,y,z)''"
    by (simp add: norm_defs)
  have m: "map_of names ''rgb(x,y,z)'' = None"
    by (rule map_of_names_None [of "CHR ''(''"]) (simp_all add: paren_not_letter)
  have s: "js_split CHR '','' ''rgb(x,y,z)'' = [''rgb(x'', ''y'', ''z)'']"
    by simp
  have f: "first_component ''rgb(x'' = ''x''"
    by (simp add: first_component_def js_char_at_def js_slice_def slice_index_def)
  have p: "js_parseInt ''x'' 0 = NaN" "js_parseInt ''y'' 0 = NaN" "js_parseInt ''z)'' 0 = NaN"
    by (simp_all add: parse_int_defs)
  have b: "rgb_branch ''rgb(x,y,z)'' = Some \<lparr>r = NaN, g = NaN, b = NaN, a = Num 1\<rparr>"
    by (simp add: rgb_branch_def s f p)
  show ?thesis
    by (simp add: stringInputToObject_def n m js_char_at_def b)
qed

text \<open>
  The numeric components are not checked either: for \<^verbatim>\<open>rgb(x,y,z)\<close> the
  constructor returns a colour whose three channels are \<open>NaN\<close>.
\<close>

lemma webcolor_rgb_xyz:
  "webcolor (InStr ''rgb(x,y,z)'') =
     Inr \<lparr>r = NaN, g = NaN, b = NaN, a = Num 1, rl = None, cb = None\<rparr>"
  by (simp add: webcolor_def parse_rgb_xyz webcolor_of_obj_def prototype_def)

end
